theory Spec2Isabelle
  imports Complex_Main "HOL-Library.Sublist"
begin

section \<open>Python values\<close>

text \<open>
  A Python \<open>str\<close> is a sequence of Unicode code points; it is modelled as the list of
  their numbers. \<open>py\<close> turns an ASCII literal of the source into such a list.
\<close>

type_synonym pystr = "nat list"

definition ord :: "char \<Rightarrow> nat" where
  "ord c = of_char c"

definition py :: "string \<Rightarrow> pystr" where
  "py s = map ord s"

text \<open>
  The values the handler meets: what \<open>json.loads\<close> and the Lambda runtime produce.
  A \<open>dict\<close> keeps its insertion order, so it is an association list (with distinct keys
  when it comes from \<open>json_loads\<close>). A \<open>float\<close> is kept as the exact rational of its
  literal, standing for the binary64 number nearest to it.
\<close>

datatype pyfloat = Finite rat | PosInf | NegInf | NaN

datatype pyval =
    VNone
  | VBool bool
  | VInt int
  | VFloat pyfloat
  | VStr pystr
  | VList "pyval list"
  | VDict "(pystr \<times> pyval) list"

fun type_name :: "pyval \<Rightarrow> string" where
  "type_name VNone = ''NoneType''"
| "type_name (VBool b) = ''bool''"
| "type_name (VInt n) = ''int''"
| "type_name (VFloat x) = ''float''"
| "type_name (VStr s) = ''str''"
| "type_name (VList xs) = ''list''"
| "type_name (VDict kvs) = ''dict''"

text \<open>
  Truth value testing, as \<open>not website\<close> uses it. A float literal is zero after
  rounding to binary64 exactly when its magnitude is at most \<open>2 ^ -1075\<close>.
\<close>

fun truthy_float :: "pyfloat \<Rightarrow> bool" where
  "truthy_float (Finite q) = (\<bar>q\<bar> > 1 / 2 ^ 1075)"
| "truthy_float PosInf = True"
| "truthy_float NegInf = True"
| "truthy_float NaN = True"

fun truthy :: "pyval \<Rightarrow> bool" where
  "truthy VNone = False"
| "truthy (VBool b) = b"
| "truthy (VInt n) = (n \<noteq> 0)"
| "truthy (VFloat x) = truthy_float x"
| "truthy (VStr s) = (s \<noteq> [])"
| "truthy (VList xs) = (xs \<noteq> [])"
| "truthy (VDict kvs) = (kvs \<noteq> [])"

text \<open>Exceptions (all of them subclasses of \<open>Exception\<close>), each with its \<open>str(e)\<close>.\<close>

datatype exn =
    AttributeError pystr
  | TypeError pystr
  | IndexError pystr
  | ValueError pystr
  | JSONDecodeError pystr
  | RecursionError pystr
  | ServiceError pystr

fun str_exn :: "exn \<Rightarrow> pystr" where
  "str_exn (AttributeError m) = m"
| "str_exn (TypeError m) = m"
| "str_exn (IndexError m) = m"
| "str_exn (ValueError m) = m"
| "str_exn (JSONDecodeError m) = m"
| "str_exn (RecursionError m) = m"
| "str_exn (ServiceError m) = m"

definition no_attribute :: "pyval \<Rightarrow> string \<Rightarrow> exn" where
  "no_attribute v a =
     AttributeError (py [CHR 0x27] @ py (type_name v) @ py ''' object has no attribute ''
       @ py [CHR 0x27] @ py a @ py [CHR 0x27])"

subsection \<open>\<open>str.strip\<close> and \<open>str.startswith\<close>\<close>

definition isspace :: "nat \<Rightarrow> bool" where
  "isspace c \<longleftrightarrow>
     (9 \<le> c \<and> c \<le> 13) \<or> (28 \<le> c \<and> c \<le> 32) \<or> c = 0x85 \<or> c = 0xA0 \<or> c = 0x1680
     \<or> (0x2000 \<le> c \<and> c \<le> 0x200A) \<or> c = 0x2028 \<or> c = 0x2029 \<or> c = 0x202F
     \<or> c = 0x205F \<or> c = 0x3000"

definition strip :: "pystr \<Rightarrow> pystr" where
  "strip s = rev (dropWhile isspace (rev (dropWhile isspace s)))"

text \<open>
  \<open>s.startswith(p)\<close> compares the slice \<open>s[:len(p)]\<close> with \<open>p\<close> when \<open>p\<close> is a
  \<open>str\<close> and raises \<open>TypeError\<close> for every other value this model has (none is a tuple).
\<close>

fun startswith :: "pystr \<Rightarrow> pyval \<Rightarrow> exn + bool" where
  "startswith s (VStr p) = Inr (take (length p) s = p)"
| "startswith s v =
     Inl (TypeError (py ''startswith first arg must be str or a tuple of str, not ''
       @ py (type_name v)))"

section \<open>The \<open>json\<close> module\<close>

subsection \<open>Decoding\<close>

text \<open>
  \<open>json.loads\<close> as CPython 3.11 runs it (the C scanner, strict mode), given the
  number of nested recursive calls the interpreter still allows the scanner. The decoder
  walks the document with an index; here the index travels with the rest of the
  document. \<open>JSONError msg pos\<close> is a \<open>JSONDecodeError\<close> before its message is
  rendered, \<open>NoValue pos\<close> the \<open>StopIteration\<close> the scanner raises where no value
  starts, which \<open>raw_decode\<close> turns into \<open>Expecting value\<close>, and \<open>Recursion w\<close> a
  \<open>RecursionError\<close> whose message ends with \<open>w\<close>.
\<close>

datatype perr = JSONError pystr nat | NoValue nat | IntTooLong nat | Recursion string | OutOfFuel

type_synonym 'a scan = "perr + ('a \<times> nat \<times> pystr)"

definition isdigit :: "nat \<Rightarrow> bool" where
  "isdigit c \<longleftrightarrow> 48 \<le> c \<and> c \<le> 57"

definition is_ws :: "nat \<Rightarrow> bool" where
  "is_ws c \<longleftrightarrow> c = 32 \<or> c = 9 \<or> c = 10 \<or> c = 13"

fun skip_ws :: "nat \<Rightarrow> pystr \<Rightarrow> nat \<times> pystr" where
  "skip_ws i [] = (i, [])"
| "skip_ws i (c # cs) = (if is_ws c then skip_ws (Suc i) cs else (i, c # cs))"

definition hexval :: "nat \<Rightarrow> nat option" where
  "hexval c =
     (if 48 \<le> c \<and> c \<le> 57 then Some (c - 48)
      else if 97 \<le> c \<and> c \<le> 102 then Some (c - 87)
      else if 65 \<le> c \<and> c \<le> 70 then Some (c - 55)
      else None)"

fun hex4 :: "pystr \<Rightarrow> nat option" where
  "hex4 (a # b # c # d # r) =
     (case (hexval a, hexval b, hexval c, hexval d) of
        (Some x, Some y, Some z, Some w) \<Rightarrow> Some (((x * 16 + y) * 16 + z) * 16 + w)
      | _ \<Rightarrow> None)"
| "hex4 r = None"

text \<open>
  After a \<open>\uXXXX\<close> escape naming a high surrogate, the six characters of a second
  escape naming a low surrogate are joined with it, provided a character follows them.
\<close>

definition surrogate_pair :: "nat \<Rightarrow> pystr \<Rightarrow> nat option" where
  "surrogate_pair u r =
     (if 0xD800 \<le> u \<and> u \<le> 0xDBFF \<and> 7 \<le> length r \<and> take 2 r = [92, 117] then
        (case hex4 (drop 2 r) of
           Some l \<Rightarrow>
             if 0xDC00 \<le> l \<and> l \<le> 0xDFFF
             then Some (0x10000 + ((u - 0xD800) * 1024 + (l - 0xDC00)))
             else None
         | None \<Rightarrow> None)
      else None)"

definition unescape :: "nat \<Rightarrow> nat option" where
  "unescape e =
     (if e = 34 \<or> e = 92 \<or> e = 47 then Some e
      else if e = ord CHR ''b'' then Some 8
      else if e = ord CHR ''f'' then Some 12
      else if e = ord CHR ''n'' then Some 10
      else if e = ord CHR ''r'' then Some 13
      else if e = ord CHR ''t'' then Some 9
      else None)"

definition unterminated :: pystr where
  "unterminated = py ''Unterminated string starting at''"

definition invalid_uescape :: pystr where
  "invalid_uescape = py ''Invalid '' @ [92] @ py ''uXXXX escape''"

definition invalid_escape :: pystr where
  "invalid_escape = py ''Invalid '' @ [92] @ py ''escape''"

text \<open>
  \<open>scanstring b i s acc\<close>: \<open>b\<close> is the index of the opening quote, \<open>i\<close> the index of
  the first character of \<open>s\<close>, \<open>acc\<close> the characters decoded so far.
\<close>

fun scanstring :: "nat \<Rightarrow> nat \<Rightarrow> pystr \<Rightarrow> pystr \<Rightarrow> pystr scan" where
  "scanstring b i [] acc = Inl (JSONError unterminated b)"
| "scanstring b i (c # cs) acc =
     (if c = 34 then Inr (acc, Suc i, cs)
      else if c = 92 then
        (case cs of
           [] \<Rightarrow> Inl (JSONError unterminated b)
         | e # r \<Rightarrow>
             if e = ord CHR ''u'' then
               (case hex4 r of
                  None \<Rightarrow> Inl (JSONError invalid_uescape (Suc i))
                | Some u \<Rightarrow>
                    if length r < 5 then Inl (JSONError invalid_uescape (Suc i))
                    else
                      (case surrogate_pair u (drop 4 r) of
                         Some u2 \<Rightarrow> scanstring b (i + 12) (drop 10 r) (acc @ [u2])
                       | None \<Rightarrow> scanstring b (i + 6) (drop 4 r) (acc @ [u])))
             else
               (case unescape e of
                  None \<Rightarrow> Inl (JSONError invalid_escape i)
                | Some x \<Rightarrow> scanstring b (i + 2) r (acc @ [x])))
      else if c < 32 then Inl (JSONError (py ''Invalid control character at'') i)
      else scanstring b (Suc i) cs (acc @ [c]))"

text \<open>
  Numbers: \<open>-?(0|[1-9][0-9]*)(\.[0-9]+)?([eE][-+]?[0-9]+)?\<close>, the longest match. Without
  fraction and exponent the literal is an \<open>int\<close>, whose conversion refuses more than
  4300 digits.
\<close>

definition digits_val :: "pystr \<Rightarrow> nat" where
  "digits_val ds = foldl (\<lambda>a d. a * 10 + (d - 48)) 0 ds"

definition scale10 :: "nat \<Rightarrow> int \<Rightarrow> rat" where
  "scale10 m e = (if 0 \<le> e then of_nat m * 10 ^ nat e else of_nat m / 10 ^ nat (- e))"

definition match_int_part :: "pystr \<Rightarrow> (pystr \<times> pystr) option" where
  "match_int_part s =
     (case s of
        [] \<Rightarrow> None
      | d # ds \<Rightarrow>
          if d = 48 then Some ([d], ds)
          else if 49 \<le> d \<and> d \<le> 57 then Some (d # takeWhile isdigit ds, dropWhile isdigit ds)
          else None)"

definition match_frac :: "pystr \<Rightarrow> (pystr \<times> pystr) option" where
  "match_frac s =
     (case s of
        p # d # r \<Rightarrow>
          if p = 46 \<and> isdigit d then Some (d # takeWhile isdigit r, dropWhile isdigit r)
          else None
      | _ \<Rightarrow> None)"

definition match_exp :: "pystr \<Rightarrow> (int \<times> pystr) option" where
  "match_exp s =
     (case s of
        [] \<Rightarrow> None
      | e # r \<Rightarrow>
          if e = 101 \<or> e = 69 then
            (let neg = (case r of [] \<Rightarrow> False | g # _ \<Rightarrow> g = 45);
                 r1 = (case r of [] \<Rightarrow> [] | g # t \<Rightarrow> if g = 45 \<or> g = 43 then t else r);
                 ds = takeWhile isdigit r1
             in if ds = [] then None
                else Some (if neg then - int (digits_val ds) else int (digits_val ds),
                           dropWhile isdigit r1))
          else None)"

definition match_number :: "nat \<Rightarrow> pystr \<Rightarrow> pyval scan" where
  "match_number i s =
     (let neg = (case s of [] \<Rightarrow> False | c # _ \<Rightarrow> c = 45);
          s1 = (if neg then tl s else s)
      in case match_int_part s1 of
           None \<Rightarrow> Inl (NoValue i)
         | Some (ip, r1) \<Rightarrow>
             (let fr = match_frac r1;
                  fp = (case fr of None \<Rightarrow> [] | Some (f, _) \<Rightarrow> f);
                  r2 = (case fr of None \<Rightarrow> r1 | Some (_, r) \<Rightarrow> r);
                  ex = match_exp r2;
                  e = (case ex of None \<Rightarrow> 0 | Some (n, _) \<Rightarrow> n);
                  r3 = (case ex of None \<Rightarrow> r2 | Some (_, r) \<Rightarrow> r);
                  j = i + (length s - length r3)
              in if fr = None \<and> ex = None then
                   (if 4300 < length ip then Inl (IntTooLong (length ip))
                    else Inr (VInt (if neg then - int (digits_val ip) else int (digits_val ip)),
                              j, r3))
                 else
                   (let q = scale10 (digits_val (ip @ fp)) (e - int (length fp))
                    in Inr (VFloat (Finite (if neg then - q else q)), j, r3))))"

text \<open>
  \<open>d[k] = v\<close> on a dict: a key already present keeps its place and takes the new
  value, a new key goes to the end.
\<close>

fun setitem :: "(pystr \<times> pyval) list \<Rightarrow> pystr \<Rightarrow> pyval \<Rightarrow> (pystr \<times> pyval) list" where
  "setitem [] k v = [(k, v)]"
| "setitem ((k', v') # kvs) k v = (if k' = k then (k, v) # kvs else (k', v') # setitem kvs k v)"

definition literal :: "string \<Rightarrow> pyval \<Rightarrow> nat \<Rightarrow> pystr \<Rightarrow> pyval scan option" where
  "literal w v i s =
     (if take (length w) s = py w then Some (Inr (v, i + length w, drop (length w) s))
      else None)"

text \<open>
  What starts with neither a quote, a brace nor a bracket: a constant or a number.
\<close>

definition scan_atom :: "nat \<Rightarrow> pystr \<Rightarrow> pyval scan" where
  "scan_atom i s =
     (case literal ''null'' VNone i s of
        Some res \<Rightarrow> res
      | None \<Rightarrow>
     (case literal ''true'' (VBool True) i s of
        Some res \<Rightarrow> res
      | None \<Rightarrow>
     (case literal ''false'' (VBool False) i s of
        Some res \<Rightarrow> res
      | None \<Rightarrow>
     (case literal ''NaN'' (VFloat NaN) i s of
        Some res \<Rightarrow> res
      | None \<Rightarrow>
     (case literal ''Infinity'' (VFloat PosInf) i s of
        Some res \<Rightarrow> res
      | None \<Rightarrow>
     (case literal ''-Infinity'' (VFloat NegInf) i s of
        Some res \<Rightarrow> res
      | None \<Rightarrow> match_number i s))))))"

text \<open>
  The steps of the scanner between its recursive calls. \<open>after_open\<close>: past an opening
  brace or bracket and white space, whether the container closes at once. \<open>object_key\<close>:
  a key, the colon and the white space around it. \<open>next_item\<close>: past a value, whether
  the container closes, goes on after a comma, or is broken.
\<close>

definition after_open :: "nat \<Rightarrow> nat \<Rightarrow> pystr \<Rightarrow> (nat \<times> pystr) + (nat \<times> pystr)" where
  "after_open close i s =
     (case skip_ws i s of
        (j, r) \<Rightarrow> if take 1 r = [close] then Inl (Suc j, tl r) else Inr (j, r))"

definition object_key :: "nat \<Rightarrow> pystr \<Rightarrow> pystr scan" where
  "object_key i s =
     (if take 1 s \<noteq> [34] then
        Inl (JSONError (py ''Expecting property name enclosed in double quotes'') i)
      else
        (case scanstring i (Suc i) (tl s) [] of
           Inl e \<Rightarrow> Inl e
         | Inr (key, j, r) \<Rightarrow>
             (case skip_ws j r of
                (j1, r1) \<Rightarrow>
                  if take 1 r1 \<noteq> [58] then
                    Inl (JSONError (py ''Expecting ':' delimiter'') j1)
                  else
                    (case skip_ws (Suc j1) (tl r1) of
                       (j2, r2) \<Rightarrow> Inr (key, j2, r2)))))"

datatype item = Closed nat pystr | More nat pystr | Broken nat

definition next_item :: "nat \<Rightarrow> nat \<Rightarrow> pystr \<Rightarrow> item" where
  "next_item close i s =
     (case skip_ws i s of
        (j, r) \<Rightarrow>
          if take 1 r = [close] then Closed (Suc j) (tl r)
          else if take 1 r \<noteq> [44] then Broken j
          else (case skip_ws (Suc j) (tl r) of (j1, r1) \<Rightarrow> More j1 r1))"

text \<open>
  A \<open>JSONDecodeError\<close> is an object of a Python class, and building it where the error
  is found takes three nested calls of the interpreter: of the class, of its \<open>__init__\<close>,
  and of \<open>ValueError.__init__\<close> there. \<open>built d e\<close> is what is raised in place of \<open>e\<close>
  where only \<open>d\<close> more calls are allowed: the \<open>RecursionError\<close> of the first of the three
  calls that does not fit. The other errors are raised without a call.
\<close>

definition built :: "nat \<Rightarrow> perr \<Rightarrow> perr" where
  "built d e =
     (case e of
        JSONError msg pos \<Rightarrow>
          if 3 \<le> d then e
          else if d = 1 then Recursion []
          else Recursion '' while calling a Python object''
      | _ \<Rightarrow> e)"

text \<open>
  The recursive descent. \<open>parse_object\<close> and \<open>parse_array\<close> are the loops of the
  scanner, entered where a key (an element) is expected, with the pairs (elements) read
  so far. The scanner enters a recursive call of the interpreter for every object and
  array it opens, an empty one too, and leaves it when the container is closed: the
  second argument is the number of such calls the recursion limit still allows, and with
  none left the scanner raises \<open>RecursionError\<close>. Elements side by side share a level.
  The first argument is there for the termination of the definition only: it bounds the
  number of calls, and \<open>decode\<close> starts it high enough for the whole document (lemma
  \<open>decode_fuel\<close>).
\<close>

function (sequential) scan_once :: "nat \<Rightarrow> nat \<Rightarrow> nat \<Rightarrow> pystr \<Rightarrow> pyval scan"
  and parse_object ::
    "nat \<Rightarrow> nat \<Rightarrow> (pystr \<times> pyval) list \<Rightarrow> nat \<Rightarrow> pystr \<Rightarrow> pyval scan"
  and parse_array :: "nat \<Rightarrow> nat \<Rightarrow> pyval list \<Rightarrow> nat \<Rightarrow> pystr \<Rightarrow> pyval scan"
where
  "scan_once 0 d i s = Inl OutOfFuel"
| "scan_once (Suc n) d i [] = Inl (NoValue i)"
| "scan_once (Suc n) d i (c # cs) =
     (if c = 34 then
        (case scanstring i (Suc i) cs [] of
           Inl e \<Rightarrow> Inl (built d e)
         | Inr (str, j, r) \<Rightarrow> Inr (VStr str, j, r))
      else if c = ord CHR ''{'' then
        (if d = 0 then Inl (Recursion '' while decoding a JSON object from a unicode string'')
         else
           (case after_open (ord CHR ''}'') (Suc i) cs of
              Inl (j, r) \<Rightarrow> Inr (VDict [], j, r)
            | Inr (j, r) \<Rightarrow> parse_object n (d - 1) [] j r))
      else if c = ord CHR ''['' then
        (if d = 0 then Inl (Recursion '' while decoding a JSON array from a unicode string'')
         else
           (case after_open (ord CHR '']'') (Suc i) cs of
              Inl (j, r) \<Rightarrow> Inr (VList [], j, r)
            | Inr (j, r) \<Rightarrow> parse_array n (d - 1) [] j r))
      else scan_atom i (c # cs))"
| "parse_object 0 d acc i s = Inl OutOfFuel"
| "parse_object (Suc n) d acc i s =
     (case object_key i s of
        Inl e \<Rightarrow> Inl (built d e)
      | Inr (key, j, r) \<Rightarrow>
          (case scan_once n d j r of
             Inl e \<Rightarrow> Inl e
           | Inr (v, j1, r1) \<Rightarrow>
               (case next_item (ord CHR ''}'') j1 r1 of
                  Closed j2 r2 \<Rightarrow> Inr (VDict (setitem acc key v), j2, r2)
                | More j2 r2 \<Rightarrow> parse_object n d (setitem acc key v) j2 r2
                | Broken j2 \<Rightarrow> Inl (built d (JSONError (py ''Expecting ',' delimiter'') j2)))))"
| "parse_array 0 d acc i s = Inl OutOfFuel"
| "parse_array (Suc n) d acc i s =
     (case scan_once n d i s of
        Inl e \<Rightarrow> Inl e
      | Inr (v, j, r) \<Rightarrow>
          (case next_item (ord CHR '']'') j r of
             Closed j1 r1 \<Rightarrow> Inr (VList (acc @ [v]), j1, r1)
           | More j1 r1 \<Rightarrow> parse_array n d (acc @ [v]) j1 r1
           | Broken j1 \<Rightarrow> Inl (built d (JSONError (py ''Expecting ',' delimiter'') j1))))"
  by pat_completeness auto
termination
  by (relation "measure (\<lambda>x. case x of Inl (n, d, i, s) \<Rightarrow> n
        | Inr (Inl (n, d, acc, i, s)) \<Rightarrow> n | Inr (Inr (n, d, acc, i, s)) \<Rightarrow> n)") auto

text \<open>
  \<open>str(e)\<close> of a \<open>JSONDecodeError\<close>: the message, then the line, column and index.
  The last equation of \<open>exn_of_perr\<close> is never used by \<open>decode\<close> (lemma \<open>decode_fuel\<close>).
\<close>

fun dec :: "nat \<Rightarrow> pystr" where
  "dec n = (if n < 10 then [48 + n] else dec (n div 10) @ [48 + n mod 10])"

definition errmsg :: "pystr \<Rightarrow> pystr \<Rightarrow> nat \<Rightarrow> pystr" where
  "errmsg msg doc pos =
     (let pre = take pos doc;
          lineno = length (filter (\<lambda>c. c = 10) pre) + 1;
          colno = length (takeWhile (\<lambda>c. c \<noteq> 10) (rev pre)) + 1
      in msg @ py '': line '' @ dec lineno @ py '' column '' @ dec colno
           @ py '' (char '' @ dec pos @ py '')'')"

fun exn_of_perr :: "pystr \<Rightarrow> perr \<Rightarrow> exn" where
  "exn_of_perr doc (JSONError msg pos) = JSONDecodeError (errmsg msg doc pos)"
| "exn_of_perr doc (IntTooLong n) =
     ValueError (py ''Exceeds the limit (4300 digits) for integer string conversion: value has ''
       @ dec n @ py '' digits; use sys.set_int_max_str_digits() to increase the limit'')"
| "exn_of_perr doc (NoValue pos) = JSONDecodeError (errmsg (py ''Expecting value'') doc pos)"
| "exn_of_perr doc (Recursion w) = RecursionError (py ''maximum recursion depth exceeded'' @ py w)"
| "exn_of_perr doc OutOfFuel = RecursionError (py ''maximum recursion depth exceeded'')"

text \<open>
  \<open>loads\<close> calls \<open>decode\<close>, which calls \<open>raw_decode\<close>, which calls the scanner. The
  errors \<open>Expecting value\<close> and \<open>Extra data\<close> are built by \<open>raw_decode\<close> and by
  \<open>decode\<close>, one and two calls below the scanner, so with that many more calls allowed
  than the \<open>depth\<close> left to the containers; the error of a byte order mark is built by
  \<open>loads\<close> itself, always with room enough.
\<close>

definition expecting_value :: "nat \<Rightarrow> perr \<Rightarrow> perr" where
  "expecting_value depth e =
     (case e of
        NoValue pos \<Rightarrow> built (depth + 1) (JSONError (py ''Expecting value'') pos)
      | _ \<Rightarrow> e)"

definition decode :: "nat \<Rightarrow> pystr \<Rightarrow> exn + pyval" where
  "decode depth s =
     (if take 1 s = [0xFEFF] then
        Inl (JSONDecodeError (errmsg (py ''Unexpected UTF-8 BOM (decode using utf-8-sig)'') s 0))
      else
        (case skip_ws 0 s of
           (i, r) \<Rightarrow>
             (case scan_once (2 * length s + 2) depth i r of
                Inl e \<Rightarrow> Inl (exn_of_perr s (expecting_value depth e))
              | Inr (v, j, r1) \<Rightarrow>
                  (case skip_ws j r1 of
                     (k, r2) \<Rightarrow>
                       if r2 = [] then Inr v
                       else Inl (exn_of_perr s (built (depth + 2) (JSONError (py ''Extra data'') k)))))))"

fun json_loads :: "nat \<Rightarrow> pyval \<Rightarrow> exn + pyval" where
  "json_loads depth (VStr s) = decode depth s"
| "json_loads depth v =
     Inl (TypeError (py ''the JSON object must be str, bytes or bytearray, not ''
       @ py (type_name v)))"

subsection \<open>Encoding\<close>

text \<open>
  \<open>json.dumps\<close> with its defaults (\<open>ensure_ascii\<close>, separators \<open>", "\<close> and \<open>": "\<close>),
  on the only values the handler gives it: a dict from \<open>str\<close> to \<open>str\<close>.
\<close>

definition hexdigit :: "nat \<Rightarrow> nat" where
  "hexdigit d = (if d < 10 then 48 + d else 87 + d)"

definition uescape :: "nat \<Rightarrow> pystr" where
  "uescape n =
     [92, 117, hexdigit (n div 4096 mod 16), hexdigit (n div 256 mod 16),
      hexdigit (n div 16 mod 16), hexdigit (n mod 16)]"

definition escape_char :: "nat \<Rightarrow> pystr" where
  "escape_char c =
     (if c = 34 then [92, 34]
      else if c = 92 then [92, 92]
      else if c = 10 then [92, ord CHR ''n'']
      else if c = 13 then [92, ord CHR ''r'']
      else if c = 9 then [92, ord CHR ''t'']
      else if c = 8 then [92, ord CHR ''b'']
      else if c = 12 then [92, ord CHR ''f'']
      else if 32 \<le> c \<and> c \<le> 126 then [c]
      else if c < 0x10000 then uescape c
      else uescape (0xD800 + (c - 0x10000) div 1024 mod 1024)
           @ uescape (0xDC00 + (c - 0x10000) mod 1024))"

definition encode_str :: "pystr \<Rightarrow> pystr" where
  "encode_str s = [34] @ concat (map escape_char s) @ [34]"

fun join :: "pystr \<Rightarrow> pystr list \<Rightarrow> pystr" where
  "join sep [] = []"
| "join sep [x] = x"
| "join sep (x # y # ys) = x @ sep @ join sep (y # ys)"

definition json_dumps :: "(pystr \<times> pystr) list \<Rightarrow> pystr" where
  "json_dumps d =
     py ''{'' @ join (py '', '') (map (\<lambda>(k, v). encode_str k @ py '': '' @ encode_str v) d)
       @ py ''}''"

section \<open>The two services and the interpreter\<close>

text \<open>
  The handler talks to a scraping service and to a language model. Both are outside
  the program: the clients are parameters of the model, functions of the request and of
  a state of the world \<open>'w\<close> that they may change, returning a response or raising.
  What is modelled of a response is what the program reads: \<open>result.data.links\<close> and
  \<open>result.data.markdown\<close> (each may be \<open>None\<close>), and of a completion the
  \<open>message.content\<close> of each of its \<open>choices\<close>. Building the request object is part of
  the call.

  One more thing outside the program decides what it returns, and travels with the
  clients: \<open>nesting_left\<close>, the number of containers nested inside the outermost one that
  the recursion limit of the interpreter lets \<open>json.loads\<close> open when the handler calls
  it. It is what the calls already on the stack, and those from \<open>json.loads\<close> down to
  the scanner, leave of the limit (1000 unless the runtime changes it). That the
  outermost container itself can be opened is taken for granted: the runtime enters the
  handler with nearly the whole limit unused.
\<close>

record scrape_options =
  formats :: "string list"
  only_main_content :: bool

record start_scrape_job_params =
  url :: pyval
  scrape_options :: scrape_options

record scrape_job_data =
  links :: "pystr list option"
  markdown :: "pystr option"

record scrape_job_response =
  data :: "scrape_job_data option"

record chat_message =
  role :: string
  content :: pystr

record chat_request =
  model :: string
  messages :: "chat_message list"

record chat_completion =
  choices :: "pystr option list"

record 'w clients =
  start_and_wait :: "start_scrape_job_params \<Rightarrow> 'w \<Rightarrow> (exn + scrape_job_response) \<times> 'w"
  chat_create :: "chat_request \<Rightarrow> 'w \<Rightarrow> (exn + chat_completion) \<times> 'w"
  nesting_left :: nat

text \<open>
  A run carries the state of the world and the log of the outbound calls made so far,
  each with its outcome. A computation returns a value or raises, and the state after it.
\<close>

datatype call =
    Scrape start_scrape_job_params "exn + scrape_job_response"
  | Chat chat_request "exn + chat_completion"

record 'w state =
  world :: 'w
  calls :: "call list"

type_synonym ('w, 'a) io = "'w state \<Rightarrow> (exn + 'a) \<times> 'w state"

definition return :: "'a \<Rightarrow> ('w, 'a) io" where
  "return x = (\<lambda>st. (Inr x, st))"

definition raise :: "exn \<Rightarrow> ('w, 'a) io" where
  "raise e = (\<lambda>st. (Inl e, st))"

definition lift :: "exn + 'a \<Rightarrow> ('w, 'a) io" where
  "lift r = (\<lambda>st. (r, st))"

definition bind :: "('w, 'a) io \<Rightarrow> ('a \<Rightarrow> ('w, 'b) io) \<Rightarrow> ('w, 'b) io" where
  "bind m f = (\<lambda>st. case m st of (Inl e, st1) \<Rightarrow> (Inl e, st1) | (Inr x, st1) \<Rightarrow> f x st1)"

definition call_scraper :: "'w clients \<Rightarrow> start_scrape_job_params \<Rightarrow> ('w, scrape_job_response) io" where
  "call_scraper cl p =
     (\<lambda>st. case start_and_wait cl p (world st) of
             (r, w) \<Rightarrow> (r, \<lparr>world = w, calls = calls st @ [Scrape p r]\<rparr>))"

definition call_llm :: "'w clients \<Rightarrow> chat_request \<Rightarrow> ('w, chat_completion) io" where
  "call_llm cl q =
     (\<lambda>st. case chat_create cl q (world st) of
             (r, w) \<Rightarrow> (r, \<lparr>world = w, calls = calls st @ [Chat q r]\<rparr>))"

section \<open>The program\<close>

definition scrape_params :: "pyval \<Rightarrow> string \<Rightarrow> start_scrape_job_params" where
  "scrape_params u fmt =
     \<lparr>url = u, scrape_options = \<lparr>formats = [fmt], only_main_content = True\<rparr>\<rparr>"

definition scrape_links :: "'w clients \<Rightarrow> pyval \<Rightarrow> ('w, pystr list option) io" where
  "scrape_links cl u =
     bind (call_scraper cl (scrape_params u ''links'')) (\<lambda>result.
       case data result of
         None \<Rightarrow> raise (no_attribute VNone ''links'')
       | Some d \<Rightarrow> return (links d))"

definition scrape_page_content :: "'w clients \<Rightarrow> pyval \<Rightarrow> ('w, pystr) io" where
  "scrape_page_content cl u =
     bind (call_scraper cl (scrape_params u ''markdown'')) (\<lambda>result.
       case data result of
         None \<Rightarrow> raise (no_attribute VNone ''markdown'')
       | Some d \<Rightarrow> return (case markdown d of None \<Rightarrow> [] | Some m \<Rightarrow> if m = [] then [] else m))"

definition user_message :: "pystr \<Rightarrow> chat_request" where
  "user_message prompt =
     \<lparr>model = ''openai/gpt-oss-120b'', messages = [\<lparr>role = ''user'', content = prompt\<rparr>]\<rparr>"

definition llm_calling :: "'w clients \<Rightarrow> pystr \<Rightarrow> ('w, pystr) io" where
  "llm_calling cl prompt =
     bind (call_llm cl (user_message prompt)) (\<lambda>response.
       case choices response of
         [] \<Rightarrow> raise (IndexError (py ''list index out of range''))
       | c # _ \<Rightarrow>
           (case c of
              None \<Rightarrow> raise (no_attribute VNone ''strip'')
            | Some t \<Rightarrow> return (strip t)))"

text \<open>\<open>d.get(k, default)\<close>; on a value that is no dict the attribute is missing.\<close>

fun dict_get :: "pyval \<Rightarrow> pystr \<Rightarrow> pyval \<Rightarrow> exn + pyval" where
  "dict_get (VDict kvs) k dflt = Inr (case map_of kvs k of None \<Rightarrow> dflt | Some v \<Rightarrow> v)"
| "dict_get v k dflt = Inl (no_attribute v ''get'')"

text \<open>
  The comprehension \<open>[link for link in links if link.startswith(website)]\<close>: iterating
  \<open>None\<close> raises, and so does the first test when \<open>website\<close> is no string.
\<close>

fun filter_links :: "pystr list \<Rightarrow> pyval \<Rightarrow> exn + pystr list" where
  "filter_links [] website = Inr []"
| "filter_links (link # rest) website =
     (case startswith link website of
        Inl e \<Rightarrow> Inl e
      | Inr keep \<Rightarrow>
          (case filter_links rest website of
             Inl e \<Rightarrow> Inl e
           | Inr kept \<Rightarrow> Inr (if keep then link # kept else kept)))"

definition comprehension :: "pystr list option \<Rightarrow> pyval \<Rightarrow> exn + pystr list" where
  "comprehension ls website =
     (case ls of
        None \<Rightarrow> Inl (TypeError (py [CHR 0x27] @ py ''NoneType'' @ py [CHR 0x27]
                  @ py '' object is not iterable''))
      | Some xs \<Rightarrow> filter_links xs website)"

text \<open>The loop over the links, \<open>all_content\<close> being its accumulator.\<close>

definition page_segment :: "pystr \<Rightarrow> pystr \<Rightarrow> pystr" where
  "page_segment link page_content =
     [10, 10] @ py ''--- Page: '' @ link @ py '' ---'' @ [10] @ page_content"

fun scrape_all :: "'w clients \<Rightarrow> pystr list \<Rightarrow> pystr \<Rightarrow> ('w, pystr) io" where
  "scrape_all cl [] all_content = return all_content"
| "scrape_all cl (link # rest) all_content =
     bind (scrape_page_content cl (VStr link)) (\<lambda>page_content.
       scrape_all cl rest (all_content @ page_segment link page_content))"

definition prompt_structuring :: "pystr \<Rightarrow> pystr" where
  "prompt_structuring all_content =
     py ''You are an expert information architect.'' @ [10]
     @ py ''Convert the unstructured data below into structured information.'' @ [10]
     @ py ''Do not remove any information, just present it in a structured format.'' @ [10, 10]
     @ all_content"

definition headings :: pystr where
  "headings =
     py ''Objective:'' @ [10]
     @ py ''Mission:'' @ [10]
     @ py ''Vision:'' @ [10]
     @ py ''Business Concept:'' @ [10]
     @ py ''Target Market:'' @ [10]
     @ py ''Value Proposition:'' @ [10]
     @ py ''Business Name:'' @ [10]
     @ py ''Products or Services they offer:'' @ [10]
     @ py ''Who they currently sell to:'' @ [10]
     @ py ''Top Business Goals:'' @ [10]
     @ py ''Challenges:'' @ [10]"

definition prompt_relevancy :: "pystr \<Rightarrow> pystr" where
  "prompt_relevancy structured_info =
     py ''You are an expert business and marketing analyst specializing in B2B strategy.'' @ [10]
     @ py ''Review the following structured company information:'' @ [10]
     @ structured_info @ [10, 10]
     @ py ''Extract only the information that is highly relevant for developing a B2B marketing strategy.'' @ [10]
     @ py ''Discard irrelevant or redundant details.'' @ [10, 10]
     @ py ''Return the answer in the exact format below:'' @ [10, 10]
     @ headings"

definition prompt_finalized :: "pystr \<Rightarrow> pystr" where
  "prompt_finalized relevant_info =
     py ''You are a professional business document formatter.'' @ [10]
     @ py ''Take the following input data:'' @ [10]
     @ relevant_info @ [10, 10]
     @ py ''Remove any content between <think> and </think>.'' @ [10]
     @ py ''Present the information in a clean, professional document format.'' @ [10, 10]
     @ py ''Required headings (exactly as written, in this order):'' @ [10]
     @ headings @ [10]
     @ py ''Notes:'' @ [10]
     @ py ''- Include only these headings and their corresponding information.'' @ [10]
     @ py ''- If no information is available for a heading, write '' @ [39]
     @ py ''Not specified'' @ [39] @ py ''.'' @ [10]
     @ py ''- Do not use symbols like #, **, or bullet points.'' @ [10]
     @ py ''- Do not add any extra commentary outside the headings.'' @ [10]
     @ py ''- Maintain proper spacing and readability.''"

record response =
  statusCode :: int
  headers :: "(pystr \<times> pystr) list"
  body :: pystr

definition json_response :: "int \<Rightarrow> pystr \<Rightarrow> pystr \<Rightarrow> response" where
  "json_response code k v =
     \<lparr>statusCode = code,
      headers = [(py ''Content-Type'', py ''application/json'')],
      body = json_dumps [(k, v)]\<rparr>"

definition missing_website :: response where
  "missing_website =
     json_response 400 (py ''error'')
       (py ''Missing '' @ [39] @ py ''website'' @ [39] @ py '' in request body'')"

definition success_response :: "pystr \<Rightarrow> response" where
  "success_response finalized_output = json_response 200 (py ''structured_info'') finalized_output"

definition error_response :: "exn \<Rightarrow> response" where
  "error_response e = json_response 500 (py ''error'') (str_exn e)"

text \<open>
  The body of the \<open>try\<close> statement of \<open>lambda_handler\<close>, then the handler with its
  \<open>except Exception\<close>. The \<open>context\<close> argument is never read and is left out.
\<close>

definition try_block :: "'w clients \<Rightarrow> pyval \<Rightarrow> ('w, response) io" where
  "try_block cl event =
     bind (lift (dict_get event (py ''body'') (VStr (py ''{}'')))) (\<lambda>raw.
     bind (lift (json_loads (Suc (nesting_left cl)) raw)) (\<lambda>body.
     bind (lift (dict_get body (py ''website'') VNone)) (\<lambda>website.
       if \<not> truthy website then return missing_website
       else
         bind (scrape_links cl website) (\<lambda>found.
         bind (lift (comprehension found website)) (\<lambda>links.
         bind (scrape_all cl links []) (\<lambda>all_content.
         bind (llm_calling cl (prompt_structuring all_content)) (\<lambda>structured_info.
         bind (llm_calling cl (prompt_relevancy structured_info)) (\<lambda>relevant_info.
         bind (llm_calling cl (prompt_finalized relevant_info)) (\<lambda>finalized_output.
           return (success_response finalized_output))))))))))"

definition lambda_handler :: "'w clients \<Rightarrow> pyval \<Rightarrow> 'w state \<Rightarrow> response \<times> 'w state" where
  "lambda_handler cl event st =
     (case try_block cl event st of
        (Inl e, st1) \<Rightarrow> (error_response e, st1)
      | (Inr r, st1) \<Rightarrow> (r, st1))"

section \<open>Notions used in the statements\<close>

definition link_filter_spec :: "pystr list \<Rightarrow> pystr \<Rightarrow> pystr list" where
  "link_filter_spec ls site = filter (prefix site) ls"

definition page_text :: "scrape_job_response \<Rightarrow> pystr" where
  "page_text r =
     (case data r of None \<Rightarrow> [] | Some d \<Rightarrow> (case markdown d of None \<Rightarrow> [] | Some m \<Rightarrow> m))"

fun is_scrape :: "call \<Rightarrow> bool" where
  "is_scrape (Scrape p r) = True"
| "is_scrape (Chat q r) = False"

fun failure :: "call \<Rightarrow> exn option" where
  "failure (Scrape p (Inl e)) = Some e"
| "failure (Chat q (Inl e)) = Some e"
| "failure c = None"

type_synonym script = "(exn + scrape_job_response) list \<times> (exn + chat_completion) list"

definition scripted :: "script clients" where
  "scripted =
     \<lparr>start_and_wait = (\<lambda>p w.
        case fst w of
          [] \<Rightarrow> (Inl (ServiceError (py ''no scrape left'')), w)
        | r # rs \<Rightarrow> (r, (rs, snd w))),
      chat_create = (\<lambda>q w.
        case snd w of
          [] \<Rightarrow> (Inl (ServiceError (py ''no completion left'')), w)
        | r # rs \<Rightarrow> (r, (fst w, rs))),
      nesting_left = 990\<rparr>"

definition links_result :: "pystr list \<Rightarrow> exn + scrape_job_response" where
  "links_result ls = Inr \<lparr>data = Some \<lparr>links = Some ls, markdown = None\<rparr>\<rparr>"

definition page_result :: "pystr option \<Rightarrow> exn + scrape_job_response" where
  "page_result m = Inr \<lparr>data = Some \<lparr>links = None, markdown = m\<rparr>\<rparr>"

definition completion :: "pystr \<Rightarrow> exn + chat_completion" where
  "completion t = Inr \<lparr>choices = [Some t]\<rparr>"

definition start :: "script \<Rightarrow> script state" where
  "start w = \<lparr>world = w, calls = []\<rparr>"

definition request :: "pystr \<Rightarrow> pyval" where
  "request b = VDict [(py ''body'', VStr b)]"

text \<open>
  The handler after validation, and its three calls of the model, as computations of
  their own (lemma \<open>try_block_stages\<close> shows that the handler is made of them), and
  what the program makes of an answer of a service.
\<close>

definition prompt_chain :: "'w clients \<Rightarrow> pystr \<Rightarrow> ('w, response) io" where
  "prompt_chain cl all_content =
     bind (llm_calling cl (prompt_structuring all_content)) (\<lambda>structured_info.
     bind (llm_calling cl (prompt_relevancy structured_info)) (\<lambda>relevant_info.
     bind (llm_calling cl (prompt_finalized relevant_info)) (\<lambda>finalized_output.
       return (success_response finalized_output))))"

definition pipeline :: "'w clients \<Rightarrow> pyval \<Rightarrow> ('w, response) io" where
  "pipeline cl website =
     bind (scrape_links cl website) (\<lambda>found.
     bind (lift (comprehension found website)) (\<lambda>links.
     bind (scrape_all cl links []) (\<lambda>all_content.
       prompt_chain cl all_content)))"

definition links_of :: "exn + scrape_job_response \<Rightarrow> exn + pystr list option" where
  "links_of r =
     (case r of
        Inl e \<Rightarrow> Inl e
      | Inr res \<Rightarrow>
          (case data res of
             None \<Rightarrow> Inl (no_attribute VNone ''links'')
           | Some d \<Rightarrow> Inr (links d)))"

definition content_of :: "exn + scrape_job_response \<Rightarrow> exn + pystr" where
  "content_of r =
     (case r of
        Inl e \<Rightarrow> Inl e
      | Inr res \<Rightarrow>
          (case data res of
             None \<Rightarrow> Inl (no_attribute VNone ''markdown'')
           | Some d \<Rightarrow> Inr (page_text res)))"

definition reply_of :: "exn + chat_completion \<Rightarrow> exn + pystr" where
  "reply_of r =
     (case r of
        Inl e \<Rightarrow> Inl e
      | Inr c \<Rightarrow>
          (case choices c of
             [] \<Rightarrow> Inl (IndexError (py ''list index out of range''))
           | None # _ \<Rightarrow> Inl (no_attribute VNone ''strip'')
           | Some t # _ \<Rightarrow> Inr (strip t)))"

text \<open>A request of the site \<open>https://acme.test\<close> and the answers of the services to it.\<close>

definition acme :: pystr where
  "acme = py ''https://acme.test''"

definition acme_about :: pystr where
  "acme_about = py ''https://acme.test/about''"

definition acme_products :: pystr where
  "acme_products = py ''https://acme.test/products''"

definition elsewhere :: pystr where
  "elsewhere = py ''https://other.test/x''"

definition acme_request :: pyval where
  "acme_request =
     request (py ''{'' @ [34] @ py ''website'' @ [34] @ py '': '' @ [34] @ py ''https://acme.test''
       @ [34] @ py ''}'')"

definition three_replies :: "(exn + chat_completion) list" where
  "three_replies =
     [completion ([32, 10] @ py ''structured'' @ [10]),
      completion (py ''relevant '' ),
      completion ([10] @ py ''Objective: sell anvils'' @ [10, 10])]"

definition three_chats :: "pystr \<Rightarrow> call list" where
  "three_chats a =
     [Chat (user_message (prompt_structuring a)) (completion ([32, 10] @ py ''structured'' @ [10])),
      Chat (user_message (prompt_relevancy (strip ([32, 10] @ py ''structured'' @ [10]))))
        (completion (py ''relevant '')),
      Chat (user_message (prompt_finalized (strip (py ''relevant ''))))
        (completion ([10] @ py ''Objective: sell anvils'' @ [10, 10]))]"




definition nowhere_answers :: script where
  "nowhere_answers = ([links_result [elsewhere]], three_replies)"

text \<open>
  A computation is orderly when it only adds to the log of calls, and a call that
  failed is the last one it made and decides its result.
\<close>

definition orderly :: "('w, 'a) io \<Rightarrow> bool" where
  "orderly m \<longleftrightarrow>
     (\<forall>st. \<exists>new. calls (snd (m st)) = calls st @ new
        \<and> (\<forall>c \<in> set new. \<forall>e. failure c = Some e \<longrightarrow> fst (m st) = Inl e \<and> last new = c))"

definition quota_answers :: script where
  "quota_answers =
     ([links_result [acme_about, elsewhere, acme_products],
       page_result (Some (py ''# About'')), Inl (ServiceError (py ''quota exceeded''))],
      three_replies)"

definition quota_done :: "script state" where
  "quota_done =
     \<lparr>world = ([], three_replies),
      calls =
        [Scrape (scrape_params (VStr acme) ''links'')
           (links_result [acme_about, elsewhere, acme_products]),
         Scrape (scrape_params (VStr acme_about) ''markdown'') (page_result (Some (py ''# About''))),
         Scrape (scrape_params (VStr acme_products) ''markdown'')
           (Inl (ServiceError (py ''quota exceeded'')))]\<rparr>"

definition number_request :: pyval where
  "number_request = request (py ''{'' @ [34] @ py ''website'' @ [34] @ py '': 5}'')"

definition number_answers :: script where
  "number_answers = ([links_result [acme_about]], three_replies)"

section \<open>The scanner never runs out of steps\<close>

text \<open>
  What a scanning function leaves of the document is no longer than what it was given,
  and strictly shorter after a comma. So a count of steps of twice the length of the
  document and two is never used up, and \<open>decode\<close> never meets the error
  \<open>OutOfFuel\<close>: every \<open>RecursionError\<close> of \<open>json_loads\<close> is one of the interpreter.
\<close>

lemma skip_ws_length: "skip_ws i s = (j, r) \<Longrightarrow> length r \<le> length s"
  by (induction i s rule: skip_ws.induct) (auto split: if_splits)

lemma take1: "take (Suc 0) x = [c] \<longleftrightarrow> (\<exists>t. x = c # t)"
  by (cases x) auto

lemma scanstring_length: "scanstring b i s acc = Inr (str, j, r) \<Longrightarrow> length r < Suc (length s)"
proof (induction b i s acc rule: scanstring.induct)
  case (1 b i acc)
  then show ?case by simp
next
  case (2 b i c cs acc)
  show ?case
  proof (cases "c = 34")
    case True
    with 2(5) show ?thesis by auto
  next
    case c34: False
    show ?thesis
    proof (cases "c = 92")
      case True
      with c34 2(5) obtain e r0 where cs: "cs = e # r0"
        by (cases cs) auto
      show ?thesis
      proof (cases "e = ord CHR ''u''")
        case eu: True
        with c34 True cs 2(5) obtain u where u: "hex4 r0 = Some u" and len: "\<not> length r0 < 5"
          by (auto split: option.splits if_splits)
        show ?thesis
        proof (cases "surrogate_pair u (drop 4 r0)")
          case None
          with 2(1) [OF c34 True cs eu u len None] 2(5) c34 True cs eu u len
          show ?thesis by auto
        next
          case (Some u2)
          with 2(2) [OF c34 True cs eu u len Some] 2(5) c34 True cs eu u len
          show ?thesis by auto
        qed
      next
        case False
        with c34 True cs 2(5) obtain x where x: "unescape e = Some x"
          by (auto split: option.splits)
        with 2(3) [OF c34 True cs False x] 2(5) c34 True cs False
        show ?thesis by auto
      qed
    next
      case False
      with c34 2(5) have "\<not> c < 32" by (auto split: if_splits)
      with 2(4) [OF c34 False this] 2(5) c34 False
      show ?thesis by auto
    qed
  qed
qed

lemma literal_length: "literal w v i s = Some (Inr (x, j, r)) \<Longrightarrow> length r \<le> length s"
  by (auto simp: literal_def split: if_splits)

lemma match_int_part_length: "match_int_part s = Some (ip, r) \<Longrightarrow> length r \<le> length s"
  by (auto simp: match_int_part_def split: list.splits if_splits
        intro: le_SucI length_dropWhile_le)

lemma match_frac_length: "match_frac s = Some (f, r) \<Longrightarrow> length r \<le> length s"
  by (auto simp: match_frac_def split: list.splits if_splits
        intro: le_SucI length_dropWhile_le)

lemma match_exp_length: "match_exp s = Some (e, r) \<Longrightarrow> length r \<le> length s"
  by (auto simp: match_exp_def Let_def split: list.splits if_splits
        intro: le_SucI length_dropWhile_le)

lemma match_number_length:
  assumes "match_number i s = Inr (v, j, r)"
  shows "length r \<le> length s"
proof -
  define s1 where "s1 = (if (case s of [] \<Rightarrow> False | c # _ \<Rightarrow> c = 45) then tl s else s)"
  have s1: "length s1 \<le> length s" by (simp add: s1_def)
  from assms obtain ip r1 where ip: "match_int_part s1 = Some (ip, r1)"
    by (auto simp: match_number_def Let_def s1_def split: option.splits)
  have r1: "length r1 \<le> length s1" by (rule match_int_part_length [OF ip])
  define r2 where "r2 = (case match_frac r1 of None \<Rightarrow> r1 | Some (_, r) \<Rightarrow> r)"
  have r2: "length r2 \<le> length r1"
    by (auto simp: r2_def split: option.splits dest: match_frac_length)
  define r3 where "r3 = (case match_exp r2 of None \<Rightarrow> r2 | Some (_, r) \<Rightarrow> r)"
  have r3: "length r3 \<le> length r2"
    by (auto simp: r3_def split: option.splits dest: match_exp_length)
  from assms have "r = r3"
    unfolding match_number_def Let_def s1_def [symmetric] ip option.case prod.case
      r2_def [symmetric] r3_def [symmetric]
    by (simp split: if_splits)
  with s1 r1 r2 r3 show ?thesis by simp
qed

lemma scan_atom_length: "scan_atom i s = Inr (v, j, r) \<Longrightarrow> length r \<le> length s"
  by (auto simp: scan_atom_def split: option.splits
        dest: literal_length match_number_length)

lemma scan_atom_fuel: "scan_atom i s \<noteq> Inl OutOfFuel"
  by (auto simp: scan_atom_def match_number_def Let_def literal_def
        split: option.splits if_splits)

lemma scanstring_fuel: "scanstring b i s acc \<noteq> Inl OutOfFuel"
  by (induction b i s acc rule: scanstring.induct)
     (auto split: list.splits option.splits if_splits)

lemma after_open_length:
  "after_open c i s = Inl (j, r) \<Longrightarrow> length r \<le> length s"
  "after_open c i s = Inr (j, r) \<Longrightarrow> length r \<le> length s"
  by (auto simp: after_open_def take1 split: prod.splits if_splits
        dest!: skip_ws_length)

lemma object_key_length: "object_key i s = Inr (k, j, r) \<Longrightarrow> length r \<le> length s"
  by (auto simp: object_key_def take1 split: if_splits sum.splits prod.splits
        dest!: skip_ws_length scanstring_length)

lemma object_key_fuel: "object_key i s \<noteq> Inl OutOfFuel"
  using scanstring_fuel
  by (auto simp: object_key_def split: if_splits sum.splits prod.splits)

lemma next_item_length:
  "next_item c i s = Closed j r \<Longrightarrow> length r \<le> length s"
  "next_item c i s = More j r \<Longrightarrow> length r < length s"
  by (auto simp: next_item_def take1 split: prod.splits if_splits
        dest!: skip_ws_length)

lemma built_fuel: "built d e = OutOfFuel \<longleftrightarrow> e = OutOfFuel"
  by (auto simp: built_def split: perr.splits)

lemma scan_fuel_length:
  "(2 * length s < n \<longrightarrow> scan_once n d i s \<noteq> Inl OutOfFuel) \<and>
   (\<forall>v j r. scan_once n d i s = Inr (v, j, r) \<longrightarrow> length r \<le> length s) \<and>
   (2 * length s + 1 < n \<longrightarrow> parse_object n d kvs i s \<noteq> Inl OutOfFuel) \<and>
   (\<forall>v j r. parse_object n d kvs i s = Inr (v, j, r) \<longrightarrow> length r \<le> length s) \<and>
   (2 * length s + 1 < n \<longrightarrow> parse_array n d vs i s \<noteq> Inl OutOfFuel) \<and>
   (\<forall>v j r. parse_array n d vs i s = Inr (v, j, r) \<longrightarrow> length r \<le> length s)"
proof (induction n arbitrary: d i s kvs vs)
  case 0
  show ?case by simp
next
  case (Suc n)
  note IH = Suc
  have so_len: "\<And>d i s v j r. scan_once n d i s = Inr (v, j, r) \<Longrightarrow> length r \<le> length s"
    using IH by blast
  have so_fuel: "\<And>d i s. 2 * length s < n \<Longrightarrow> scan_once n d i s \<noteq> Inl OutOfFuel"
    using IH by blast
  have po_len: "\<And>d kvs i s v j r. parse_object n d kvs i s = Inr (v, j, r) \<Longrightarrow> length r \<le> length s"
    using IH by blast
  have po_fuel: "\<And>d kvs i s. 2 * length s + 1 < n \<Longrightarrow> parse_object n d kvs i s \<noteq> Inl OutOfFuel"
    using IH by blast
  have pa_len: "\<And>d vs i s v j r. parse_array n d vs i s = Inr (v, j, r) \<Longrightarrow> length r \<le> length s"
    using IH by blast
  have pa_fuel: "\<And>d vs i s. 2 * length s + 1 < n \<Longrightarrow> parse_array n d vs i s \<noteq> Inl OutOfFuel"
    using IH by blast
  have 1: "2 * length s < Suc n \<longrightarrow> scan_once (Suc n) d i s \<noteq> Inl OutOfFuel"
  proof (cases s)
    case Nil
    then show ?thesis by simp
  next
    case (Cons c cs)
    show ?thesis
    proof
      assume n: "2 * length s < Suc n"
      have le: "\<And>r. length r \<le> length cs \<Longrightarrow> 2 * length r + 1 < n"
        using n Cons by simp
      show "scan_once (Suc n) d i s \<noteq> Inl OutOfFuel"
      proof (cases "c = 34")
        case True
        with scanstring_fuel [of i "Suc i" cs "[]"] show ?thesis
          by (auto simp: Cons built_fuel split: sum.splits)
      next
        case quote: False
        show ?thesis
        proof (cases "c = ord CHR ''{''")
          case True
          show ?thesis
          proof (cases "after_open (ord CHR ''}'') (Suc i) cs")
            case (Inl x)
            with quote True show ?thesis by (simp add: Cons split: prod.splits)
          next
            case (Inr x)
            then obtain j r where o: "after_open (ord CHR ''}'') (Suc i) cs = Inr (j, r)"
              by (cases x) auto
            from po_fuel [OF le [OF after_open_length(2) [OF o]]] quote True o
            show ?thesis by (simp add: Cons)
          qed
        next
          case brace: False
          show ?thesis
          proof (cases "c = ord CHR ''[''")
            case True
            show ?thesis
            proof (cases "after_open (ord CHR '']'') (Suc i) cs")
              case (Inl x)
              with quote brace True show ?thesis by (simp add: Cons split: prod.splits)
            next
              case (Inr x)
              then obtain j r where o: "after_open (ord CHR '']'') (Suc i) cs = Inr (j, r)"
                by (cases x) auto
              from pa_fuel [OF le [OF after_open_length(2) [OF o]]] quote brace True o
              show ?thesis by (simp add: Cons)
            qed
          next
            case False
            with quote brace scan_atom_fuel [of i "c # cs"] show ?thesis
              by (simp add: Cons)
          qed
        qed
      qed
    qed
  qed
  have 2: "\<forall>v j r. scan_once (Suc n) d i s = Inr (v, j, r) \<longrightarrow> length r \<le> length s"
  proof (cases s)
    case Nil
    then show ?thesis by simp
  next
    case (Cons c cs)
    show ?thesis
      using scan_atom_length [of i "c # cs"] scanstring_length [of i "Suc i" cs "[]"]
      by (auto simp: Cons split: sum.splits prod.splits if_splits
            dest!: after_open_length po_len pa_len)
  qed
  have 3: "2 * length s + 1 < Suc n \<longrightarrow> parse_object (Suc n) d kvs i s \<noteq> Inl OutOfFuel"
  proof
    assume n: "2 * length s + 1 < Suc n"
    show "parse_object (Suc n) d kvs i s \<noteq> Inl OutOfFuel"
    proof (cases "object_key i s")
      case (Inl e)
      with object_key_fuel [of i s] show ?thesis by (auto simp: built_fuel)
    next
      case (Inr x)
      then obtain key j r where k: "object_key i s = Inr (key, j, r)" by (cases x) auto
      have r: "length r \<le> length s" by (rule object_key_length [OF k])
      show ?thesis
      proof (cases "scan_once n d j r")
        case (Inl e)
        with so_fuel [of r d j] r n have "e \<noteq> OutOfFuel" by auto
        with k Inl show ?thesis by simp
      next
        case (Inr y)
        then obtain v j1 r1 where v: "scan_once n d j r = Inr (v, j1, r1)" by (cases y) auto
        have r1: "length r1 \<le> length r" by (rule so_len [OF v])
        show ?thesis
        proof (cases "next_item (ord CHR ''}'') j1 r1")
          case (More j2 r2)
          from next_item_length(2) [OF More] r1 r n have "2 * length r2 + 1 < n" by simp
          from po_fuel [OF this] k v More show ?thesis by simp
        qed (use k v in \<open>simp_all add: built_fuel\<close>)
      qed
    qed
  qed
  have 4: "\<forall>v j r. parse_object (Suc n) d kvs i s = Inr (v, j, r) \<longrightarrow> length r \<le> length s"
    by (auto split: sum.splits prod.splits item.splits
          dest!: object_key_length so_len po_len next_item_length(1) next_item_length(2))
  have 5: "2 * length s + 1 < Suc n \<longrightarrow> parse_array (Suc n) d vs i s \<noteq> Inl OutOfFuel"
  proof
    assume n: "2 * length s + 1 < Suc n"
    show "parse_array (Suc n) d vs i s \<noteq> Inl OutOfFuel"
    proof (cases "scan_once n d i s")
      case (Inl e)
      with so_fuel [of s d i] n have "e \<noteq> OutOfFuel" by auto
      with Inl show ?thesis by simp
    next
      case (Inr y)
      then obtain v j r where v: "scan_once n d i s = Inr (v, j, r)" by (cases y) auto
      have r: "length r \<le> length s" by (rule so_len [OF v])
      show ?thesis
      proof (cases "next_item (ord CHR '']'') j r")
        case (More j2 r2)
        from next_item_length(2) [OF More] r n have "2 * length r2 + 1 < n" by simp
        from pa_fuel [OF this] v More show ?thesis by simp
      qed (use v in \<open>simp_all add: built_fuel\<close>)
    qed
  qed
  have 6: "\<forall>v j r. parse_array (Suc n) d vs i s = Inr (v, j, r) \<longrightarrow> length r \<le> length s"
    by (auto split: sum.splits prod.splits item.splits
          dest!: so_len pa_len next_item_length(1) next_item_length(2))
  from 1 2 3 4 5 6 show ?case by blast
qed

lemma decode_fuel:
  "scan_once (2 * length s + 2) depth (fst (skip_ws 0 s)) (snd (skip_ws 0 s)) \<noteq> Inl OutOfFuel"
proof -
  obtain i r where ws: "skip_ws 0 s = (i, r)" by (cases "skip_ws 0 s")
  have "length r \<le> length s" by (rule skip_ws_length [OF ws])
  then have "2 * length r < 2 * length s + 2" by simp
  with scan_fuel_length [of r "2 * length s + 2" depth i] show ?thesis
    by (simp add: ws)
qed

section \<open>Running a computation\<close>

lemma bind_Inr: "m st = (Inr x, st1) \<Longrightarrow> bind m f st = f x st1"
  by (simp add: bind_def)

lemma bind_Inl: "m st = (Inl e, st1) \<Longrightarrow> bind m f st = (Inl e, st1)"
  by (simp add: bind_def)

lemma bind_lift_Inr: "bind (lift (Inr x)) f st = f x st"
  by (simp add: bind_def lift_def)

lemma bind_lift_Inl: "bind (lift (Inl e)) f st = (Inl e, st)"
  by (simp add: bind_def lift_def)

lemma bind_Inr_iff:
  "bind m f st = (Inr y, st') \<longleftrightarrow> (\<exists>x st1. m st = (Inr x, st1) \<and> f x st1 = (Inr y, st'))"
  by (auto simp: bind_def split: prod.splits sum.splits)

lemma bind_Inl_iff:
  "bind m f st = (Inl e, st') \<longleftrightarrow>
     m st = (Inl e, st') \<or> (\<exists>x st1. m st = (Inr x, st1) \<and> f x st1 = (Inl e, st'))"
  by (auto simp: bind_def split: prod.splits sum.splits)

lemma lift_Inr_iff: "lift r st = (Inr x, st') \<longleftrightarrow> r = Inr x \<and> st' = st"
  by (auto simp: lift_def)

lemma return_iff: "return x st = (r, st') \<longleftrightarrow> r = Inr x \<and> st' = st"
  by (auto simp: return_def)

lemma raise_iff: "raise e st = (r, st') \<longleftrightarrow> r = Inl e \<and> st' = st"
  by (auto simp: raise_def)

lemma startswith_prefix: "take (length p) s = p \<longleftrightarrow> prefix p s"
proof
  assume "take (length p) s = p"
  then have "p = take (length p) s" by simp
  then show "prefix p s" by (metis take_is_prefix)
next
  assume "prefix p s"
  then obtain zs where "s = p @ zs" by (auto simp: prefix_def)
  then show "take (length p) s = p" by simp
qed

lemma filter_links_str: "filter_links ls (VStr site) = Inr (filter (prefix site) ls)"
  by (induction ls) (simp_all add: startswith_prefix)

lemma count_list_filter: "count_list (filter P xs) x = (if P x then count_list xs x else 0)"
  by (induction xs) auto

text \<open>
  Claim C4. For every list of discovered links and every root URL (a string), the
  comprehension of the handler is the plain textual prefix test of the specification,
  \<open>[l for l in links if l.startswith(root)]\<close>: it keeps exactly the links that are the
  root followed by some rest, in their original order (the result is a subsequence of
  the input), each as many times as it occurred (no deduplication), and compares the
  characters as they are (no normalisation of either URL).
\<close>

theorem link_filter_is_prefix_test:
  "filter_links ls (VStr site) = Inr (link_filter_spec ls site)
   \<and> subseq (link_filter_spec ls site) ls
   \<and> set (link_filter_spec ls site) = {l. l \<in> set ls \<and> (\<exists>rest. l = site @ rest)}
   \<and> (\<forall>l. count_list (link_filter_spec ls site) l = (if prefix site l then count_list ls l else 0))"
  by (auto simp: link_filter_spec_def filter_links_str count_list_filter prefix_def)

section \<open>The handler, stage by stage\<close>

lemma try_block_stages:
  "try_block cl event =
     bind (lift (dict_get event (py ''body'') (VStr (py ''{}'')))) (\<lambda>raw.
     bind (lift (json_loads (Suc (nesting_left cl)) raw)) (\<lambda>body.
     bind (lift (dict_get body (py ''website'') VNone)) (\<lambda>website.
       if \<not> truthy website then return missing_website else pipeline cl website)))"
  unfolding try_block_def pipeline_def prompt_chain_def by (rule refl)

lemma handler_bad_event:
  assumes "dict_get event (py ''body'') (VStr (py ''{}'')) = Inl e"
  shows "lambda_handler cl event st = (error_response e, st)"
  using assms by (simp add: lambda_handler_def try_block_stages bind_lift_Inl)

lemma handler_bad_json:
  assumes "dict_get event (py ''body'') (VStr (py ''{}'')) = Inr raw"
    and "json_loads (Suc (nesting_left cl)) raw = Inl e"
  shows "lambda_handler cl event st = (error_response e, st)"
  using assms by (simp add: lambda_handler_def try_block_stages bind_lift_Inl bind_lift_Inr)

lemma handler_bad_body:
  assumes "dict_get event (py ''body'') (VStr (py ''{}'')) = Inr raw"
    and "json_loads (Suc (nesting_left cl)) raw = Inr b"
    and "dict_get b (py ''website'') VNone = Inl e"
  shows "lambda_handler cl event st = (error_response e, st)"
  using assms by (simp add: lambda_handler_def try_block_stages bind_lift_Inl bind_lift_Inr)

lemma handler_falsy:
  assumes "dict_get event (py ''body'') (VStr (py ''{}'')) = Inr raw"
    and "json_loads (Suc (nesting_left cl)) raw = Inr b"
    and "dict_get b (py ''website'') VNone = Inr v"
    and "\<not> truthy v"
  shows "lambda_handler cl event st = (missing_website, st)"
  using assms
  by (simp add: lambda_handler_def try_block_stages bind_lift_Inr return_def)

lemma handler_validated:
  assumes "dict_get event (py ''body'') (VStr (py ''{}'')) = Inr raw"
    and "json_loads (Suc (nesting_left cl)) raw = Inr b"
    and "dict_get b (py ''website'') VNone = Inr v"
    and "truthy v"
  shows "lambda_handler cl event st =
           (case pipeline cl v st of
              (Inl e, st1) \<Rightarrow> (error_response e, st1)
            | (Inr r, st1) \<Rightarrow> (r, st1))"
  using assms
  by (simp add: lambda_handler_def try_block_stages bind_lift_Inr)

lemmas scan_once_numeral =
  scan_once.simps(2,3) [of "pred_numeral k", folded numeral_eq_Suc]
  parse_object.simps(2) [of "pred_numeral k", folded numeral_eq_Suc]
  parse_array.simps(2) [of "pred_numeral k", folded numeral_eq_Suc] for k

lemmas json_eval = scan_once_numeral py_def ord_def decode_def built_def expecting_value_def
  is_ws_def isdigit_def
  after_open_def object_key_def next_item_def scan_atom_def literal_def match_number_def
  match_int_part_def match_frac_def match_exp_def digits_val_def unescape_def hexval_def
  surrogate_pair_def

lemma decode_empty_object: "json_loads (Suc d) (VStr (py ''{}'')) = Inr (VDict [])"
  by (simp add: json_eval)

text \<open>
  Two documents at the limit of the interpreter: an array inside an array where only one
  container may be opened, and a missing comma found where the error object cannot be
  built any more.
\<close>

lemma decode_too_deep:
  "json_loads 1 (VStr (py ''[[]]''))
     = Inl (RecursionError (py ''maximum recursion depth exceeded while decoding a JSON array from a unicode string''))"
  by (simp add: json_eval)

lemma decode_no_room:
  "json_loads 2 (VStr (py ''[1 2]'')) = Inl (RecursionError (py ''maximum recursion depth exceeded''))"
  "json_loads 4 (VStr (py ''[1 2]''))
     = Inl (JSONDecodeError (py ''Expecting '' @ [39, 44, 39] @ py '' delimiter: line 1 column 4 (char 3)''))"
  by (simp_all add: json_eval errmsg_def)

lemma request_body: "dict_get (request b) (py ''body'') (VStr (py ''{}'')) = Inr (VStr b)"
  by (simp add: request_def)

lemma status_codes:
  "statusCode missing_website = 400"
  "statusCode (error_response e) = 500"
  "statusCode (success_response t) = 200"
  by (simp_all add: missing_website_def error_response_def success_response_def json_response_def)

text \<open>
  Claim C8. For every event dict that has no \<open>body\<close> key, the handler parses the
  default \<open>"{}"\<close> instead, finds no website in the empty object, and returns the 400
  missing-website response; it makes no outbound call and does not answer 500.
\<close>

theorem no_body_key_gives_400:
  assumes "map_of ev (py ''body'') = None"
  shows "dict_get (VDict ev) (py ''body'') (VStr (py ''{}'')) = Inr (VStr (py ''{}''))
         \<and> lambda_handler cl (VDict ev) st = (missing_website, st)
         \<and> statusCode missing_website = 400"
proof -
  have raw: "dict_get (VDict ev) (py ''body'') (VStr (py ''{}'')) = Inr (VStr (py ''{}''))"
    using assms by simp
  have web: "dict_get (VDict []) (py ''website'') VNone = Inr VNone"
    by simp
  have "lambda_handler cl (VDict ev) st = (missing_website, st)"
    by (rule handler_falsy [OF raw decode_empty_object web]) simp
  with raw show ?thesis by (simp add: status_codes)
qed

theorem no_body_key_gives_400_witness:
  "map_of [(py ''path'', VStr (py ''/''))] (py ''body'') = None
   \<and> lambda_handler scripted (VDict [(py ''path'', VStr (py ''/''))]) (start ([], []))
       = (missing_website, start ([], []))"
proof -
  have h: "map_of [(py ''path'', VStr (py ''/''))] (py ''body'') = None"
    by (simp add: py_def ord_def)
  show ?thesis
    using h no_body_key_gives_400 [OF h, of scripted "start ([], [])"] by simp
qed

text \<open>
  Claim C2, as the code has it. For every request whose body parses to a JSON object
  that lacks the website field, or has it null, empty or any other value that Python
  counts as false, the handler returns exactly the 400 response with the body
  \<open>{"error": "Missing 'website' in request body"}\<close>, and the state of the world and the
  log of outbound calls are what they were: neither service is called. (A body that
  parses to something else than an object has no \<open>get\<close>; see the counterexample.)
\<close>

theorem missing_website_gives_400:
  assumes "dict_get event (py ''body'') (VStr (py ''{}'')) = Inr raw"
    and "json_loads (Suc (nesting_left cl)) raw = Inr (VDict kvs)"
    and "v = (case map_of kvs (py ''website'') of None \<Rightarrow> VNone | Some x \<Rightarrow> x)"
    and "\<not> truthy v"
  shows "lambda_handler cl event st = (missing_website, st)
         \<and> statusCode missing_website = 400
         \<and> body missing_website = json_dumps [(py ''error'',
               py ''Missing '' @ [39] @ py ''website'' @ [39] @ py '' in request body'')]"
proof -
  have "dict_get (VDict kvs) (py ''website'') VNone = Inr v"
    using assms(3) by simp
  from handler_falsy [OF assms(1,2) this assms(4)]
  show ?thesis
    by (simp add: status_codes) (simp add: missing_website_def json_response_def)
qed

lemma decode_null_website:
  "json_loads (Suc d) (VStr (py ''{'' @ [34] @ py ''website'' @ [34] @ py '': null}''))
     = Inr (VDict [(py ''website'', VNone)])"
  by (simp add: json_eval)

lemma decode_empty_website:
  "json_loads (Suc d) (VStr (py ''{'' @ [34] @ py ''website'' @ [34] @ py '': '' @ [34, 34] @ py ''}''))
     = Inr (VDict [(py ''website'', VStr [])])"
  by (simp add: json_eval)

theorem missing_website_gives_400_witness:
  "json_loads (Suc (nesting_left scripted)) (VStr (py ''{}'')) = Inr (VDict [])
   \<and> lambda_handler scripted (request (py ''{}'')) (start ([], []))
       = (missing_website, start ([], []))
   \<and> json_loads (Suc (nesting_left scripted))
         (VStr (py ''{'' @ [34] @ py ''website'' @ [34] @ py '': null}''))
       = Inr (VDict [(py ''website'', VNone)])
   \<and> lambda_handler scripted (request (py ''{'' @ [34] @ py ''website'' @ [34] @ py '': null}''))
         (start ([], [])) = (missing_website, start ([], []))
   \<and> json_loads (Suc (nesting_left scripted))
         (VStr (py ''{'' @ [34] @ py ''website'' @ [34] @ py '': '' @ [34, 34] @ py ''}''))
       = Inr (VDict [(py ''website'', VStr [])])
   \<and> lambda_handler scripted
         (request (py ''{'' @ [34] @ py ''website'' @ [34] @ py '': '' @ [34, 34] @ py ''}''))
         (start ([], [])) = (missing_website, start ([], []))"
  using
    missing_website_gives_400 [OF request_body decode_empty_object refl,
      of scripted "start ([], [])"]
    missing_website_gives_400 [OF request_body decode_null_website refl,
      of scripted "start ([], [])"]
    missing_website_gives_400 [OF request_body decode_empty_website refl,
      of scripted "start ([], [])"]
    decode_empty_object [of "nesting_left scripted"]
    decode_null_website [of "nesting_left scripted"]
    decode_empty_website [of "nesting_left scripted"]
  by simp

text \<open>
  The claim as written fails where the parsed body is no object: the body \<open>[]\<close> is
  valid JSON without a website field, \<open>body.get\<close> raises \<open>AttributeError\<close>, and the
  answer is 500.
\<close>

lemma decode_empty_array: "json_loads (Suc d) (VStr (py ''[]'')) = Inr (VList [])"
  by (simp add: json_eval)

theorem array_body_is_not_400:
  "json_loads (Suc (nesting_left scripted)) (VStr (py ''[]'')) = Inr (VList [])
   \<and> lambda_handler scripted (request (py ''[]'')) (start ([], []))
       = (error_response (no_attribute (VList []) ''get''), start ([], []))
   \<and> statusCode (fst (lambda_handler scripted (request (py ''[]'')) (start ([], [])))) = 500
   \<and> fst (lambda_handler scripted (request (py ''[]'')) (start ([], []))) \<noteq> missing_website"
proof -
  have get: "dict_get (VList []) (py ''website'') VNone = Inl (no_attribute (VList []) ''get'')"
    by simp
  have run: "lambda_handler scripted (request (py ''[]'')) (start ([], []))
      = (error_response (no_attribute (VList []) ''get''), start ([], []))"
    by (rule handler_bad_body [OF request_body decode_empty_array get])
  have "statusCode (error_response e) \<noteq> statusCode missing_website" for e
    by (simp add: status_codes)
  then have "error_response e \<noteq> missing_website" for e
    by metis
  with run decode_empty_array [of "nesting_left scripted"] show ?thesis
    by (simp add: status_codes)
qed

text \<open>
  Claim C3, as the code has it. A body that is not JSON makes \<open>json.loads\<close> raise
  inside the \<open>try\<close> statement, and the handler answers 500 with the text of that
  exception; no outbound call is made. It is not treated as a missing field.
\<close>

theorem malformed_body_gives_500:
  assumes "dict_get event (py ''body'') (VStr (py ''{}'')) = Inr raw"
    and "json_loads (Suc (nesting_left cl)) raw = Inl e"
  shows "lambda_handler cl event st = (error_response e, st)
         \<and> statusCode (error_response e) = 500
         \<and> body (error_response e) = json_dumps [(py ''error'', str_exn e)]"
  using handler_bad_json [OF assms]
  by (simp add: status_codes) (simp add: error_response_def json_response_def)

lemma not_json: "json_loads (Suc (nesting_left scripted)) (VStr (py ''not json''))
    = Inl (JSONDecodeError (py ''Expecting value: line 1 column 1 (char 0)''))"
  by (simp add: scripted_def json_eval errmsg_def)

theorem malformed_body_gives_500_witness:
  "dict_get (request (py ''not json'')) (py ''body'') (VStr (py ''{}'')) = Inr (VStr (py ''not json''))
   \<and> json_loads (Suc (nesting_left scripted)) (VStr (py ''not json''))
       = Inl (JSONDecodeError (py ''Expecting value: line 1 column 1 (char 0)''))
   \<and> lambda_handler scripted (request (py ''not json'')) (start ([], []))
       = (error_response (JSONDecodeError (py ''Expecting value: line 1 column 1 (char 0)'')),
          start ([], []))"
  using malformed_body_gives_500 [OF request_body not_json,
      of "start ([], [])"]
    request_body not_json
  by simp

theorem malformed_body_is_not_400:
  "json_loads (Suc (nesting_left scripted)) (VStr (py ''not json'')) = Inl (JSONDecodeError (py ''Expecting value: line 1 column 1 (char 0)''))
   \<and> statusCode (fst (lambda_handler scripted (request (py ''not json'')) (start ([], [])))) = 500
   \<and> fst (lambda_handler scripted (request (py ''not json'')) (start ([], []))) \<noteq> missing_website"
proof -
  have run: "lambda_handler scripted (request (py ''not json'')) (start ([], []))
      = (error_response (JSONDecodeError (py ''Expecting value: line 1 column 1 (char 0)'')),
         start ([], []))"
    by (rule handler_bad_json [OF request_body not_json])
  have "statusCode (error_response e) \<noteq> statusCode missing_website" for e
    by (simp add: status_codes)
  then have "error_response e \<noteq> missing_website" for e
    by metis
  with run not_json show ?thesis by (simp add: status_codes)
qed

section \<open>What each stage does to the state\<close>

lemma scrape_links_apply:
  "scrape_links cl u st =
     (case start_and_wait cl (scrape_params u ''links'') (world st) of
        (r, w) \<Rightarrow>
          (links_of r, \<lparr>world = w, calls = calls st @ [Scrape (scrape_params u ''links'') r]\<rparr>))"
  by (simp add: scrape_links_def bind_def call_scraper_def links_of_def raise_def return_def
      split: prod.splits sum.splits option.splits)

lemma scrape_page_content_apply:
  "scrape_page_content cl u st =
     (case start_and_wait cl (scrape_params u ''markdown'') (world st) of
        (r, w) \<Rightarrow>
          (content_of r,
           \<lparr>world = w, calls = calls st @ [Scrape (scrape_params u ''markdown'') r]\<rparr>))"
  by (simp add: scrape_page_content_def bind_def call_scraper_def content_of_def page_text_def
      raise_def return_def split: prod.splits sum.splits option.splits)

lemma llm_calling_apply:
  "llm_calling cl prompt st =
     (case chat_create cl (user_message prompt) (world st) of
        (r, w) \<Rightarrow>
          (reply_of r, \<lparr>world = w, calls = calls st @ [Chat (user_message prompt) r]\<rparr>))"
  by (simp add: llm_calling_def bind_def call_llm_def reply_of_def raise_def return_def
      split: prod.splits sum.splits option.splits list.splits)

lemma links_of_Inr: "links_of r = Inr found \<longleftrightarrow> (\<exists>res d. r = Inr res \<and> data res = Some d \<and> found = links d)"
  by (auto simp: links_of_def split: sum.splits option.splits)

lemma content_of_Inr:
  "content_of r = Inr pc \<longleftrightarrow> (\<exists>res. r = Inr res \<and> data res \<noteq> None \<and> pc = page_text res)"
  by (auto simp: content_of_def split: sum.splits option.splits)

lemma reply_of_Inr:
  "reply_of r = Inr t \<longleftrightarrow> (\<exists>c t0 x. r = Inr c \<and> choices c = Some t0 # x \<and> t = strip t0)"
  by (auto simp: reply_of_def split: sum.splits option.splits list.splits)

lemma scrape_page_content_Inr:
  assumes "scrape_page_content cl u st = (Inr pc, st1)"
  shows "\<exists>res. data res \<noteq> None \<and> pc = page_text res
           \<and> calls st1 = calls st @ [Scrape (scrape_params u ''markdown'') (Inr res)]"
  using assms
  by (auto simp: scrape_page_content_apply content_of_Inr split: prod.splits)

lemma scrape_all_success:
  "scrape_all cl ls acc st = (Inr a, st') \<Longrightarrow>
     \<exists>rs. length rs = length ls
       \<and> calls st' = calls st
            @ map2 (\<lambda>l r. Scrape (scrape_params (VStr l) ''markdown'') (Inr r)) ls rs
       \<and> a = acc @ concat (map2 (\<lambda>l r. page_segment l (page_text r)) ls rs)
       \<and> (\<forall>r \<in> set rs. data r \<noteq> None)"
proof (induction ls arbitrary: acc st)
  case Nil
  then show ?case by (simp add: return_iff)
next
  case (Cons l ls)
  from Cons.prems obtain pc st1 where
    page: "scrape_page_content cl (VStr l) st = (Inr pc, st1)" and
    rest: "scrape_all cl ls (acc @ page_segment l pc) st1 = (Inr a, st')"
    by (auto simp: bind_Inr_iff)
  from scrape_page_content_Inr [OF page] obtain res where
    res: "data res \<noteq> None" "pc = page_text res"
      "calls st1 = calls st @ [Scrape (scrape_params (VStr l) ''markdown'') (Inr res)]"
    by blast
  from Cons.IH [OF rest] obtain rs where
    rs: "length rs = length ls"
      "calls st' = calls st1
         @ map2 (\<lambda>l r. Scrape (scrape_params (VStr l) ''markdown'') (Inr r)) ls rs"
      "a = (acc @ page_segment l pc) @ concat (map2 (\<lambda>l r. page_segment l (page_text r)) ls rs)"
      "\<forall>r \<in> set rs. data r \<noteq> None"
    by blast
  show ?case
    by (rule exI [of _ "res # rs"]) (use res rs in simp)
qed

text \<open>
  Claim C5. For every sequence of filtered links, when the loop over them returns,
  one page was fetched for every link, in the order of the links, and the aggregated
  content is the concatenation in that order of one segment
  \<open>"\n\n--- Page: {link} ---\n{content}"\<close> per link. The content of a page is its
  markdown, and the empty string when the markdown is \<open>None\<close> or empty (\<open>page_text\<close>): the
  header of such a page is emitted all the same, since there are as many segments as
  links.
\<close>

theorem aggregated_content_is_concatenation:
  assumes "scrape_all cl ls [] st = (Inr a, st')"
  shows "\<exists>rs. length rs = length ls
           \<and> calls st' = calls st
                @ map2 (\<lambda>l r. Scrape (scrape_params (VStr l) ''markdown'') (Inr r)) ls rs
           \<and> a = concat (map2 (\<lambda>l r. [10, 10] @ py ''--- Page: '' @ l @ py '' ---'' @ [10]
                                      @ (case markdown (the (data r)) of None \<Rightarrow> [] | Some m \<Rightarrow> m))
                          ls rs)
           \<and> (\<forall>r \<in> set rs. data r \<noteq> None)"
proof -
  from scrape_all_success [OF assms] obtain rs where
    rs: "length rs = length ls"
      "calls st' = calls st
         @ map2 (\<lambda>l r. Scrape (scrape_params (VStr l) ''markdown'') (Inr r)) ls rs"
      "a = [] @ concat (map2 (\<lambda>l r. page_segment l (page_text r)) ls rs)"
      "\<forall>r \<in> set rs. data r \<noteq> None"
    by blast
  have "map2 (\<lambda>l r. page_segment l (page_text r)) ls rs
      = map2 (\<lambda>l r. [10, 10] @ py ''--- Page: '' @ l @ py '' ---'' @ [10]
                      @ (case markdown (the (data r)) of None \<Rightarrow> [] | Some m \<Rightarrow> m)) ls rs"
  proof (rule map_cong [OF refl])
    fix x assume "x \<in> set (zip ls rs)"
    then have "snd x \<in> set rs" by (metis prod.collapse set_zip_rightD)
    with rs(4) obtain d where "data (snd x) = Some d" by auto
    then show "(case x of (l, r) \<Rightarrow> page_segment l (page_text r))
        = (case x of (l, r) \<Rightarrow> [10, 10] @ py ''--- Page: '' @ l @ py '' ---'' @ [10]
                      @ (case markdown (the (data r)) of None \<Rightarrow> [] | Some m \<Rightarrow> m))"
      by (cases x) (simp add: page_segment_def page_text_def)
  qed
  with rs show ?thesis by auto
qed

lemma scripted_scrape:
  "start_and_wait scripted p (r # rs, cs) = (r, (rs, cs))"
  by (simp add: scripted_def)


lemma two_pages:
  "scrape_all scripted [py ''https://acme.test/about'', py ''https://acme.test/products''] []
     (start ([page_result (Some (py ''# About'')), page_result None], []))
   = (Inr (page_segment (py ''https://acme.test/about'') (py ''# About'')
           @ page_segment (py ''https://acme.test/products'') []),
      \<lparr>world = ([], []),
       calls = [Scrape (scrape_params (VStr (py ''https://acme.test/about'')) ''markdown'')
                  (page_result (Some (py ''# About''))),
                Scrape (scrape_params (VStr (py ''https://acme.test/products'')) ''markdown'')
                  (page_result None)]\<rparr>)"
  by (simp add: bind_def scrape_page_content_apply scripted_scrape start_def return_def
      content_of_def page_text_def page_result_def)

theorem aggregated_content_is_concatenation_witness:
  "scrape_all scripted [py ''https://acme.test/about'', py ''https://acme.test/products''] []
     (start ([page_result (Some (py ''# About'')), page_result None], []))
   = (Inr (page_segment (py ''https://acme.test/about'') (py ''# About'')
           @ page_segment (py ''https://acme.test/products'') []),
      \<lparr>world = ([], []),
       calls = [Scrape (scrape_params (VStr (py ''https://acme.test/about'')) ''markdown'')
                  (page_result (Some (py ''# About''))),
                Scrape (scrape_params (VStr (py ''https://acme.test/products'')) ''markdown'')
                  (page_result None)]\<rparr>)
   \<and> (\<exists>rs. length rs = length [py ''https://acme.test/about'', py ''https://acme.test/products'']
           \<and> calls (\<lparr>world = ([], []),
       calls = [Scrape (scrape_params (VStr (py ''https://acme.test/about'')) ''markdown'')
                  (page_result (Some (py ''# About''))),
                Scrape (scrape_params (VStr (py ''https://acme.test/products'')) ''markdown'')
                  (page_result None)]\<rparr> :: script state)
               = calls (start ([page_result (Some (py ''# About'')), page_result None], []))
                @ map2 (\<lambda>l r. Scrape (scrape_params (VStr l) ''markdown'') (Inr r)) [py ''https://acme.test/about'', py ''https://acme.test/products''] rs
           \<and> page_segment (py ''https://acme.test/about'') (py ''# About'')
                 @ page_segment (py ''https://acme.test/products'') []
               = concat (map2 (\<lambda>l r. [10, 10] @ py ''--- Page: '' @ l @ py '' ---'' @ [10]
                                      @ (case markdown (the (data r)) of None \<Rightarrow> [] | Some m \<Rightarrow> m))
                          [py ''https://acme.test/about'', py ''https://acme.test/products''] rs)
           \<and> (\<forall>r \<in> set rs. data r \<noteq> None))"
  using two_pages aggregated_content_is_concatenation [OF two_pages]
  by (rule conjI)

section \<open>Runs of the whole handler\<close>

lemma scrape_links_Inr:
  assumes "scrape_links cl u st = (Inr found, st1)"
  shows "\<exists>res d. data res = Some d \<and> found = links d
           \<and> calls st1 = calls st @ [Scrape (scrape_params u ''links'') (Inr res)]"
  using assms by (auto simp: scrape_links_apply links_of_Inr split: prod.splits)

lemma llm_calling_Inr:
  assumes "llm_calling cl p st = (Inr t, st1)"
  shows "\<exists>c t0 x. choices c = Some t0 # x \<and> t = strip t0
           \<and> calls st1 = calls st @ [Chat (user_message p) (Inr c)]"
  using assms by (auto simp: llm_calling_apply reply_of_Inr split: prod.splits)

lemma prompt_chain_Inr:
  assumes "prompt_chain cl a st = (Inr resp, st')"
  shows "\<exists>c1 c2 c3 t1 t2 t3 x1 x2 x3.
           calls st' = calls st
             @ [Chat (user_message (prompt_structuring a)) (Inr c1),
                Chat (user_message (prompt_relevancy (strip t1))) (Inr c2),
                Chat (user_message (prompt_finalized (strip t2))) (Inr c3)]
           \<and> choices c1 = Some t1 # x1 \<and> choices c2 = Some t2 # x2 \<and> choices c3 = Some t3 # x3
           \<and> resp = success_response (strip t3)"
proof -
  from assms obtain s1 st1 s2 st2 s3 where
    1: "llm_calling cl (prompt_structuring a) st = (Inr s1, st1)" and
    2: "llm_calling cl (prompt_relevancy s1) st1 = (Inr s2, st2)" and
    3: "llm_calling cl (prompt_finalized s2) st2 = (Inr s3, st')" and
    4: "resp = success_response s3"
    by (auto simp: prompt_chain_def bind_Inr_iff return_iff)
  from llm_calling_Inr [OF 1] obtain c1 t1 x1 where
    c1: "choices c1 = Some t1 # x1" "s1 = strip t1"
      "calls st1 = calls st @ [Chat (user_message (prompt_structuring a)) (Inr c1)]"
    by blast
  from llm_calling_Inr [OF 2] obtain c2 t2 x2 where
    c2: "choices c2 = Some t2 # x2" "s2 = strip t2"
      "calls st2 = calls st1 @ [Chat (user_message (prompt_relevancy s1)) (Inr c2)]"
    by blast
  from llm_calling_Inr [OF 3] obtain c3 t3 x3 where
    c3: "choices c3 = Some t3 # x3" "s3 = strip t3"
      "calls st' = calls st2 @ [Chat (user_message (prompt_finalized s2)) (Inr c3)]"
    by blast
  have "calls st' = calls st
          @ [Chat (user_message (prompt_structuring a)) (Inr c1),
             Chat (user_message (prompt_relevancy (strip t1))) (Inr c2),
             Chat (user_message (prompt_finalized (strip t2))) (Inr c3)]"
    using c1 c2 c3 by simp
  with c1(1) c2(1) c3(1,2) 4 show ?thesis by blast
qed

lemma pipeline_Inr:
  assumes "pipeline cl v st = (Inr resp, st')"
  shows "\<exists>res flt rs c1 c2 c3 t1 t2 t3 x1 x2 x3.
           calls st' = calls st
             @ Scrape (scrape_params v ''links'') (Inr res)
             # map2 (\<lambda>l r. Scrape (scrape_params (VStr l) ''markdown'') (Inr r)) flt rs
             @ [Chat (user_message (prompt_structuring
                   (concat (map2 (\<lambda>l r. page_segment l (page_text r)) flt rs)))) (Inr c1),
                Chat (user_message (prompt_relevancy (strip t1))) (Inr c2),
                Chat (user_message (prompt_finalized (strip t2))) (Inr c3)]
           \<and> length rs = length flt
           \<and> choices c1 = Some t1 # x1 \<and> choices c2 = Some t2 # x2 \<and> choices c3 = Some t3 # x3
           \<and> resp = success_response (strip t3)"
proof -
  from assms obtain found st1 flt a st2 where
    1: "scrape_links cl v st = (Inr found, st1)" and
    2: "comprehension found v = Inr flt" and
    3: "scrape_all cl flt [] st1 = (Inr a, st2)" and
    4: "prompt_chain cl a st2 = (Inr resp, st')"
    by (auto simp: pipeline_def bind_Inr_iff lift_Inr_iff)
  from scrape_links_Inr [OF 1] obtain res where
    res: "calls st1 = calls st @ [Scrape (scrape_params v ''links'') (Inr res)]"
    by blast
  from scrape_all_success [OF 3] obtain rs where
    rs: "length rs = length flt"
      "calls st2 = calls st1
         @ map2 (\<lambda>l r. Scrape (scrape_params (VStr l) ''markdown'') (Inr r)) flt rs"
      "a = [] @ concat (map2 (\<lambda>l r. page_segment l (page_text r)) flt rs)"
    by blast
  from prompt_chain_Inr [OF 4] obtain c1 c2 c3 t1 t2 t3 x1 x2 x3 where
    ch: "calls st' = calls st2
           @ [Chat (user_message (prompt_structuring a)) (Inr c1),
              Chat (user_message (prompt_relevancy (strip t1))) (Inr c2),
              Chat (user_message (prompt_finalized (strip t2))) (Inr c3)]"
      "choices c1 = Some t1 # x1" "choices c2 = Some t2 # x2" "choices c3 = Some t3 # x3"
      "resp = success_response (strip t3)"
    by blast
  have "calls st' = calls st
          @ Scrape (scrape_params v ''links'') (Inr res)
          # map2 (\<lambda>l r. Scrape (scrape_params (VStr l) ''markdown'') (Inr r)) flt rs
          @ [Chat (user_message (prompt_structuring
                (concat (map2 (\<lambda>l r. page_segment l (page_text r)) flt rs)))) (Inr c1),
             Chat (user_message (prompt_relevancy (strip t1))) (Inr c2),
             Chat (user_message (prompt_finalized (strip t2))) (Inr c3)]"
    using res rs ch(1) by simp
  with rs(1) ch(2-5) show ?thesis by blast
qed




section \<open>Runs that succeed\<close>

lemma pipeline_success:
  assumes "start_and_wait cl (scrape_params v ''links'') (world st) = (Inr res, w1)"
    and "data res = Some d"
    and "comprehension (links d) v = Inr flt"
    and "scrape_all cl flt []
           \<lparr>world = w1, calls = calls st @ [Scrape (scrape_params v ''links'') (Inr res)]\<rparr>
         = (Inr a, st2)"
    and "chat_create cl (user_message (prompt_structuring a)) (world st2) = (Inr c1, w2)"
    and "choices c1 = Some t1 # x1"
    and "chat_create cl (user_message (prompt_relevancy (strip t1))) w2 = (Inr c2, w3)"
    and "choices c2 = Some t2 # x2"
    and "chat_create cl (user_message (prompt_finalized (strip t2))) w3 = (Inr c3, w4)"
    and "choices c3 = Some t3 # x3"
  shows "pipeline cl v st =
           (Inr (success_response (strip t3)),
            \<lparr>world = w4,
             calls = calls st2
               @ [Chat (user_message (prompt_structuring a)) (Inr c1),
                  Chat (user_message (prompt_relevancy (strip t1))) (Inr c2),
                  Chat (user_message (prompt_finalized (strip t2))) (Inr c3)]\<rparr>)"
proof -
  have links: "scrape_links cl v st
      = (Inr (links d),
         \<lparr>world = w1, calls = calls st @ [Scrape (scrape_params v ''links'') (Inr res)]\<rparr>)"
    using assms(1,2) by (simp add: scrape_links_apply links_of_def)
  have 1: "llm_calling cl (prompt_structuring a) st2
      = (Inr (strip t1),
         \<lparr>world = w2,
          calls = calls st2 @ [Chat (user_message (prompt_structuring a)) (Inr c1)]\<rparr>)"
    using assms(5,6) by (simp add: llm_calling_apply reply_of_def)
  have 2: "llm_calling cl (prompt_relevancy (strip t1))
         \<lparr>world = w2,
          calls = calls st2 @ [Chat (user_message (prompt_structuring a)) (Inr c1)]\<rparr>
      = (Inr (strip t2),
         \<lparr>world = w3,
          calls = calls st2
            @ [Chat (user_message (prompt_structuring a)) (Inr c1),
               Chat (user_message (prompt_relevancy (strip t1))) (Inr c2)]\<rparr>)"
    using assms(7,8) by (simp add: llm_calling_apply reply_of_def)
  have 3: "llm_calling cl (prompt_finalized (strip t2))
         \<lparr>world = w3,
          calls = calls st2
            @ [Chat (user_message (prompt_structuring a)) (Inr c1),
               Chat (user_message (prompt_relevancy (strip t1))) (Inr c2)]\<rparr>
      = (Inr (strip t3),
         \<lparr>world = w4,
          calls = calls st2
            @ [Chat (user_message (prompt_structuring a)) (Inr c1),
               Chat (user_message (prompt_relevancy (strip t1))) (Inr c2),
               Chat (user_message (prompt_finalized (strip t2))) (Inr c3)]\<rparr>)"
    using assms(9,10) by (simp add: llm_calling_apply reply_of_def)
  show ?thesis
    by (simp add: pipeline_def prompt_chain_def bind_def lift_def return_def links assms(3,4)
        1 2 3)
qed

lemma pipeline_run:
  assumes "dict_get event (py ''body'') (VStr (py ''{}'')) = Inr raw"
    and "json_loads (Suc (nesting_left cl)) raw = Inr b"
    and "dict_get b (py ''website'') VNone = Inr v"
    and "truthy v"
    and "pipeline cl v st = (Inr r, st1)"
  shows "lambda_handler cl event st = (r, st1)"
  using handler_validated [OF assms(1-4), of st] assms(5) by simp

text \<open>
  Claim C9. When the scrape of the links succeeds and none of the links passes the
  filter, the aggregated content is the empty string, the handler goes on all the same:
  the first call of the model gets the structuring template around the empty content,
  and when the three calls succeed the handler answers 200 with the stripped answer of
  the third. The run made four outbound calls: the scrape of the links and the three
  calls of the model.
\<close>

theorem no_matching_link_still_runs:
  assumes "dict_get event (py ''body'') (VStr (py ''{}'')) = Inr raw"
    and "json_loads (Suc (nesting_left cl)) raw = Inr b"
    and "dict_get b (py ''website'') VNone = Inr v"
    and "truthy v"
    and "start_and_wait cl (scrape_params v ''links'') (world st) = (Inr res, w1)"
    and "data res = Some d"
    and "links d = Some found"
    and "filter_links found v = Inr []"
    and "chat_create cl (user_message (prompt_structuring [])) w1 = (Inr c1, w2)"
    and "choices c1 = Some t1 # x1"
    and "chat_create cl (user_message (prompt_relevancy (strip t1))) w2 = (Inr c2, w3)"
    and "choices c2 = Some t2 # x2"
    and "chat_create cl (user_message (prompt_finalized (strip t2))) w3 = (Inr c3, w4)"
    and "choices c3 = Some t3 # x3"
  shows "lambda_handler cl event st =
           (success_response (strip t3),
            \<lparr>world = w4,
             calls = calls st
               @ [Scrape (scrape_params v ''links'') (Inr res),
                  Chat (user_message (prompt_structuring [])) (Inr c1),
                  Chat (user_message (prompt_relevancy (strip t1))) (Inr c2),
                  Chat (user_message (prompt_finalized (strip t2))) (Inr c3)]\<rparr>)
         \<and> statusCode (success_response (strip t3)) = 200
         \<and> scrape_all cl [] [] = return []"
proof -
  have flt: "comprehension (links d) v = Inr []"
    using assms(7,8) by (simp add: comprehension_def)
  have none: "scrape_all cl [] []
           \<lparr>world = w1, calls = calls st @ [Scrape (scrape_params v ''links'') (Inr res)]\<rparr>
         = (Inr [],
            \<lparr>world = w1, calls = calls st @ [Scrape (scrape_params v ''links'') (Inr res)]\<rparr>)"
    by (simp add: return_def)
  have "pipeline cl v st =
           (Inr (success_response (strip t3)),
            \<lparr>world = w4,
             calls = calls \<lparr>world = w1,
                            calls = calls st @ [Scrape (scrape_params v ''links'') (Inr res)]\<rparr>
               @ [Chat (user_message (prompt_structuring [])) (Inr c1),
                  Chat (user_message (prompt_relevancy (strip t1))) (Inr c2),
                  Chat (user_message (prompt_finalized (strip t2))) (Inr c3)]\<rparr>)"
    by (rule pipeline_success [OF assms(5,6) flt none _ assms(10,11,12,13,14)])
      (simp add: assms(9))
  from pipeline_run [OF assms(1-4) this] show ?thesis
    by (simp add: status_codes)
qed

lemma decode_acme:
  "json_loads (Suc d)
     (VStr (py ''{'' @ [34] @ py ''website'' @ [34] @ py '': '' @ [34] @ py ''https://acme.test''
        @ [34] @ py ''}''))
   = Inr (VDict [(py ''website'', VStr acme)])"
  by (simp add: json_eval acme_def)

lemma acme_body:
  "dict_get acme_request (py ''body'') (VStr (py ''{}''))
     = Inr (VStr (py ''{'' @ [34] @ py ''website'' @ [34] @ py '': '' @ [34] @ py ''https://acme.test''
        @ [34] @ py ''}''))"
  by (simp add: acme_request_def request_body)

lemma acme_website: "dict_get (VDict [(py ''website'', VStr acme)]) (py ''website'') VNone = Inr (VStr acme)"
  by simp

lemma acme_truthy: "truthy (VStr acme)"
  by (simp add: acme_def py_def)

lemma acme_filter:
  "filter_links [acme_about, elsewhere, acme_products] (VStr acme) = Inr [acme_about, acme_products]"
  "filter_links [elsewhere] (VStr acme) = Inr []"
  by (simp_all add: acme_def acme_about_def acme_products_def elsewhere_def py_def ord_def)

lemma acme_comprehension:
  "comprehension (Some [acme_about, elsewhere, acme_products]) (VStr acme)
     = Inr [acme_about, acme_products]"
  by (simp only: comprehension_def option.case acme_filter)

lemma scrape_all_two_scripted:
  "scrape_all scripted [l1, l2] []
     \<lparr>world = (page_result m1 # page_result m2 # rs, cs), calls = k\<rparr>
   = (Inr (page_segment l1 (case m1 of None \<Rightarrow> [] | Some x \<Rightarrow> x)
           @ page_segment l2 (case m2 of None \<Rightarrow> [] | Some x \<Rightarrow> x)),
      \<lparr>world = (rs, cs),
       calls = k @ [Scrape (scrape_params (VStr l1) ''markdown'') (page_result m1),
                    Scrape (scrape_params (VStr l2) ''markdown'') (page_result m2)]\<rparr>)"
  by (simp add: bind_def scrape_page_content_apply scripted_scrape return_def
      content_of_def page_text_def page_result_def)





theorem no_matching_link_still_runs_witness:
  "filter_links [elsewhere] (VStr acme) = Inr []
   \<and> lambda_handler scripted acme_request (start nowhere_answers)
       = (success_response (strip ([10] @ py ''Objective: sell anvils'' @ [10, 10])),
          \<lparr>world = ([], []),
           calls = Scrape (scrape_params (VStr acme) ''links'') (links_result [elsewhere])
                   # three_chats []\<rparr>)"
proof -
  have "lambda_handler scripted acme_request (start nowhere_answers)
      = (success_response (strip ([10] @ py ''Objective: sell anvils'' @ [10, 10])),
         \<lparr>world = ([], []),
          calls = calls (start nowhere_answers)
            @ [Scrape (scrape_params (VStr acme) ''links'')
                 (Inr \<lparr>data = Some \<lparr>links = Some [elsewhere], markdown = None\<rparr>\<rparr>),
               Chat (user_message (prompt_structuring []))
                 (Inr \<lparr>choices = [Some ([32, 10] @ py ''structured'' @ [10])]\<rparr>),
               Chat (user_message (prompt_relevancy (strip ([32, 10] @ py ''structured'' @ [10]))))
                 (Inr \<lparr>choices = [Some (py ''relevant '')]\<rparr>),
               Chat (user_message (prompt_finalized (strip (py ''relevant ''))))
                 (Inr \<lparr>choices = [Some ([10] @ py ''Objective: sell anvils'' @ [10, 10])]\<rparr>)]\<rparr>)
      \<and> statusCode (success_response (strip ([10] @ py ''Objective: sell anvils'' @ [10, 10]))) = 200
      \<and> scrape_all scripted [] [] = return []"
    by (rule no_matching_link_still_runs [OF acme_body decode_acme acme_website acme_truthy,
          where d = "\<lparr>links = Some [elsewhere], markdown = None\<rparr>" and found = "[elsewhere]"
            and ?w1.0 = "([], three_replies)" and ?w2.0 = "([], tl three_replies)"
            and ?w3.0 = "([], tl (tl three_replies))"
            and ?x1.0 = "[]" and ?x2.0 = "[]" and ?x3.0 = "[]"])
      (simp_all add: start_def nowhere_answers_def scripted_def links_result_def acme_filter
        three_replies_def completion_def del: filter_links.simps)
  then show ?thesis
    by (simp add: acme_filter start_def nowhere_answers_def links_result_def three_chats_def
        completion_def del: filter_links.simps)
qed

section \<open>Failures of the services\<close>

lemma orderly_return: "orderly (return x)"
  by (simp add: orderly_def return_def)

lemma orderly_raise: "orderly (raise e)"
  by (simp add: orderly_def raise_def)

lemma orderly_lift: "orderly (lift r)"
  by (simp add: orderly_def lift_def)

lemma orderly_bind:
  assumes m: "orderly m" and f: "\<And>x. orderly (f x)"
  shows "orderly (bind m f)"
  unfolding orderly_def
proof
  fix st
  from m obtain new1 where
    n1: "calls (snd (m st)) = calls st @ new1"
      "\<forall>c \<in> set new1. \<forall>e. failure c = Some e \<longrightarrow> fst (m st) = Inl e \<and> last new1 = c"
    unfolding orderly_def by blast
  obtain r st1 where ms: "m st = (r, st1)" by (cases "m st")
  show "\<exists>new. calls (snd (bind m f st)) = calls st @ new
          \<and> (\<forall>c \<in> set new. \<forall>e. failure c = Some e
                \<longrightarrow> fst (bind m f st) = Inl e \<and> last new = c)"
  proof (cases r)
    case (Inl e)
    with ms have "bind m f st = (Inl e, st1)" by (simp add: bind_def)
    with n1 ms Inl show ?thesis by auto
  next
    case (Inr x)
    with ms have b: "bind m f st = f x st1" by (simp add: bind_def)
    from f [of x] obtain new2 where
      n2: "calls (snd (f x st1)) = calls st1 @ new2"
        "\<forall>c \<in> set new2. \<forall>e. failure c = Some e \<longrightarrow> fst (f x st1) = Inl e \<and> last new2 = c"
      unfolding orderly_def by blast
    from n1(2) ms Inr have quiet: "\<forall>c \<in> set new1. failure c = None"
      by (metis fst_conv not_Some_eq sum.distinct(1))
    have "calls (snd (bind m f st)) = calls st @ (new1 @ new2)"
      using b n1(1) n2(1) ms by simp
    moreover have "\<forall>c \<in> set (new1 @ new2). \<forall>e. failure c = Some e
        \<longrightarrow> fst (bind m f st) = Inl e \<and> last (new1 @ new2) = c"
    proof (intro ballI allI impI)
      fix c e assume c: "c \<in> set (new1 @ new2)" and e: "failure c = Some e"
      with quiet have "c \<in> set new2" by auto
      with n2(2) e have "fst (f x st1) = Inl e" "last new2 = c" by auto
      moreover from \<open>c \<in> set new2\<close> have "new2 \<noteq> []" by auto
      ultimately show "fst (bind m f st) = Inl e \<and> last (new1 @ new2) = c"
        using b by simp
    qed
    ultimately show ?thesis by blast
  qed
qed

lemma orderly_call_scraper: "orderly (call_scraper cl p)"
proof -
  have "failure (Scrape p r) = Some e \<Longrightarrow> r = Inl e" for r e
    by (cases r) simp_all
  then show ?thesis
    by (auto simp: orderly_def call_scraper_def split: prod.splits)
qed

lemma orderly_call_llm: "orderly (call_llm cl q)"
proof -
  have "failure (Chat q r) = Some e \<Longrightarrow> r = Inl e" for r e
    by (cases r) simp_all
  then show ?thesis
    by (auto simp: orderly_def call_llm_def split: prod.splits)
qed

lemma orderly_scrape_links: "orderly (scrape_links cl u)"
  unfolding scrape_links_def
  by (intro orderly_bind orderly_call_scraper)
    (simp add: orderly_raise orderly_return split: option.split)

lemma orderly_scrape_page_content: "orderly (scrape_page_content cl u)"
  unfolding scrape_page_content_def
  by (intro orderly_bind orderly_call_scraper)
    (simp add: orderly_raise orderly_return split: option.split)

lemma orderly_llm_calling: "orderly (llm_calling cl p)"
  unfolding llm_calling_def
  by (intro orderly_bind orderly_call_llm)
    (simp add: orderly_raise orderly_return split: option.split list.split)

lemma orderly_scrape_all: "orderly (scrape_all cl ls acc)"
proof (induction ls arbitrary: acc)
  case Nil
  show ?case by (simp add: orderly_return)
next
  case (Cons l ls)
  show ?case
    by (simp, intro orderly_bind orderly_scrape_page_content Cons.IH)
qed

lemma orderly_prompt_chain: "orderly (prompt_chain cl a)"
  unfolding prompt_chain_def
  by (intro orderly_bind orderly_llm_calling orderly_return)

lemma orderly_after_links:
  "orderly (bind (lift (comprehension found v)) (\<lambda>links.
     bind (scrape_all cl links []) (\<lambda>all_content. prompt_chain cl all_content)))"
  by (intro orderly_bind orderly_lift orderly_scrape_all orderly_prompt_chain)

lemma orderly_pipeline: "orderly (pipeline cl v)"
  unfolding pipeline_def
  by (intro orderly_bind orderly_scrape_links orderly_after_links)

lemma orderly_try_block: "orderly (try_block cl event)"
  unfolding try_block_stages
  by (intro orderly_bind orderly_lift)
    (simp add: orderly_return orderly_pipeline)

lemma handler_result:
  "lambda_handler cl event st =
     (case fst (try_block cl event st) of Inl e \<Rightarrow> error_response e | Inr r \<Rightarrow> r,
      snd (try_block cl event st))"
  by (simp add: lambda_handler_def split: prod.splits sum.splits)

text \<open>
  Claim C6. Whenever a call of the scraping service or of the model raises during a
  run of the handler, that call is the last one of the run and the handler answers 500
  with a body that holds the text of that exception and nothing else: whatever was
  fetched before (the pages of the links before the failing one) is not in the response.
\<close>

theorem upstream_failure_gives_500:
  assumes "lambda_handler cl event st = (resp, st')"
    and "c \<in> set (drop (length (calls st)) (calls st'))"
    and "failure c = Some e"
  shows "resp = error_response e
         \<and> statusCode resp = 500
         \<and> body resp = json_dumps [(py ''error'', str_exn e)]
         \<and> c = last (calls st')"
proof -
  from orderly_try_block [of cl event] obtain new where
    n: "calls (snd (try_block cl event st)) = calls st @ new"
      "\<forall>c \<in> set new. \<forall>e. failure c = Some e
         \<longrightarrow> fst (try_block cl event st) = Inl e \<and> last new = c"
    unfolding orderly_def by blast
  from assms(1) have st': "st' = snd (try_block cl event st)"
    and resp: "resp = (case fst (try_block cl event st) of Inl e \<Rightarrow> error_response e | Inr r \<Rightarrow> r)"
    by (simp_all add: handler_result)
  from n(1) st' have new: "drop (length (calls st)) (calls st') = new" and
    all: "calls st' = calls st @ new"
    by simp_all
  with assms(2) have "c \<in> set new" by simp
  with n(2) assms(3) have "fst (try_block cl event st) = Inl e" and "last new = c"
    by auto
  moreover from \<open>c \<in> set new\<close> have "new \<noteq> []" by auto
  ultimately have "resp = error_response e" and "c = last (calls st')"
    using resp all by simp_all
  then show ?thesis
    by (simp add: status_codes) (simp add: error_response_def json_response_def)
qed

lemma quota_run:
  "lambda_handler scripted acme_request (start quota_answers)
     = (error_response (ServiceError (py ''quota exceeded'')), quota_done)"
proof -
  have "pipeline scripted (VStr acme) (start quota_answers)
     = (Inl (ServiceError (py ''quota exceeded'')), quota_done)"
    by (simp add: pipeline_def bind_def lift_def return_def scrape_links_apply
        scrape_page_content_apply scripted_scrape links_of_def
        content_of_def page_text_def start_def quota_answers_def links_result_def
        page_result_def acme_comprehension quota_done_def)
  with handler_validated [OF acme_body decode_acme acme_website acme_truthy,
      where st = "start quota_answers"]
  show ?thesis by simp
qed

theorem upstream_failure_gives_500_witness:
  "lambda_handler scripted acme_request (start quota_answers)
     = (error_response (ServiceError (py ''quota exceeded'')), quota_done)
   \<and> Scrape (scrape_params (VStr acme_products) ''markdown'')
         (Inl (ServiceError (py ''quota exceeded'')))
       \<in> set (drop (length (calls (start quota_answers))) (calls quota_done))
   \<and> failure (Scrape (scrape_params (VStr acme_products) ''markdown'')
         (Inl (ServiceError (py ''quota exceeded''))))
       = Some (ServiceError (py ''quota exceeded''))
   \<and> Scrape (scrape_params (VStr acme_about) ''markdown'') (page_result (Some (py ''# About'')))
       \<in> set (calls quota_done)
   \<and> body (error_response (ServiceError (py ''quota exceeded'')))
       = json_dumps [(py ''error'', py ''quota exceeded'')]"
proof -
  have mem: "Scrape (scrape_params (VStr acme_products) ''markdown'')
         (Inl (ServiceError (py ''quota exceeded'')))
       \<in> set (drop (length (calls (start quota_answers))) (calls quota_done))"
    by (simp add: start_def quota_done_def)
  have fail: "failure (Scrape (scrape_params (VStr acme_products) ''markdown'')
         (Inl (ServiceError (py ''quota exceeded''))))
       = Some (ServiceError (py ''quota exceeded''))"
    by simp
  have page: "Scrape (scrape_params (VStr acme_about) ''markdown'')
        (page_result (Some (py ''# About''))) \<in> set (calls quota_done)"
    by (simp add: quota_done_def)
  from upstream_failure_gives_500 [OF quota_run mem fail]
  have "body (error_response (ServiceError (py ''quota exceeded'')))
       = json_dumps [(py ''error'', py ''quota exceeded'')]"
    by simp
  with quota_run mem fail page show ?thesis by blast
qed

section \<open>The shapes of the response\<close>

lemma pipeline_Inr_shape:
  assumes "pipeline cl v st = (Inr r, st')"
  shows "\<exists>t. r = success_response t"
  using pipeline_Inr [OF assms] by blast

lemma try_block_Inr_shape:
  assumes "try_block cl event st = (Inr r, st')"
  shows "r = missing_website \<or> (\<exists>t. r = success_response t)"
proof -
  from assms obtain v where
    v: "(if \<not> truthy v then return missing_website else pipeline cl v) st = (Inr r, st')"
    by (auto simp: try_block_stages bind_Inr_iff lift_Inr_iff)
  show ?thesis
  proof (cases "truthy v")
    case True
    with v have "pipeline cl v st = (Inr r, st')" by simp
    from pipeline_Inr_shape [OF this] show ?thesis by blast
  next
    case False
    with v show ?thesis by (simp add: return_iff)
  qed
qed

lemma handler_shapes:
  "fst (lambda_handler cl event st) = missing_website
   \<or> (\<exists>t. fst (lambda_handler cl event st) = success_response t)
   \<or> (\<exists>e. fst (lambda_handler cl event st) = error_response e)"
proof (cases "fst (try_block cl event st)")
  case (Inl e)
  then have "fst (lambda_handler cl event st) = error_response e"
    by (simp add: handler_result)
  then show ?thesis by blast
next
  case (Inr r)
  then have "try_block cl event st = (Inr r, snd (try_block cl event st))"
    by (metis prod.collapse)
  from try_block_Inr_shape [OF this]
  have "r = missing_website \<or> (\<exists>t. r = success_response t)" .
  moreover from Inr have "fst (lambda_handler cl event st) = r"
    by (simp add: handler_result)
  ultimately show ?thesis by blast
qed

lemma key_differs: "json_dumps [(py ''structured_info'', t)] \<noteq> json_dumps [(py ''error'', m)]"
  by (simp add: json_dumps_def encode_str_def py_def ord_def escape_char_def)

lemma key_differs': "json_dumps [(py ''error'', m)] \<noteq> json_dumps [(py ''structured_info'', t)]"
  using key_differs [of t m] by simp

lemma bodies:
  "body missing_website = json_dumps [(py ''error'',
      py ''Missing '' @ [39] @ py ''website'' @ [39] @ py '' in request body'')]"
  "body (error_response e) = json_dumps [(py ''error'', str_exn e)]"
  "body (success_response t) = json_dumps [(py ''structured_info'', t)]"
  by (simp_all add: missing_website_def error_response_def success_response_def
      json_response_def)

text \<open>
  Claim C7. For every event, whatever the services answer and wherever an exception is
  raised, the body of the response is the serialisation of a JSON object with a single
  key, which is \<open>structured_info\<close> or \<open>error\<close>: exactly one of the two shapes, never both
  and never neither.
\<close>

theorem body_has_exactly_one_key:
  "(\<exists>t. body (fst (lambda_handler cl event st)) = json_dumps [(py ''structured_info'', t)])
   \<noteq> (\<exists>m. body (fst (lambda_handler cl event st)) = json_dumps [(py ''error'', m)])"
proof -
  from handler_shapes [of cl event st]
  consider (missing) "fst (lambda_handler cl event st) = missing_website"
    | (success) t where "fst (lambda_handler cl event st) = success_response t"
    | (error) e where "fst (lambda_handler cl event st) = error_response e"
    by blast
  then show ?thesis
  proof cases
    case missing
    then show ?thesis by (auto simp: bodies(1) key_differs')
  next
    case success
    then show ?thesis by (auto simp: bodies(3) key_differs)
  next
    case error
    then show ?thesis by (auto simp: bodies(2) key_differs')
  qed
qed

section \<open>A website that is no string\<close>

lemma startswith_non_str:
  assumes "\<forall>s. v \<noteq> VStr s"
  shows "startswith l v
     = Inl (TypeError (py ''startswith first arg must be str or a tuple of str, not ''
         @ py (type_name v)))"
  using assms by (cases v) simp_all

text \<open>
  Claim C10. Validation tests the truth value of the website, not its type. For a
  website that is present, true and no string (a number, say), validation passes and
  the pipeline starts: the first outbound call of the run is the scrape of the links of
  that value. The answer is never the 400 response: it is 200 or a 500 error response;
  when the scrape raises it is the 500 response of that exception, and when the scrape
  returns at least one link it is the 500 response of the \<open>TypeError\<close> of the prefix test.
\<close>

theorem non_string_website_is_not_400:
  assumes "dict_get event (py ''body'') (VStr (py ''{}'')) = Inr raw"
    and "json_loads (Suc (nesting_left cl)) raw = Inr (VDict kvs)"
    and "map_of kvs (py ''website'') = Some v"
    and "truthy v"
    and "\<forall>s. v \<noteq> VStr s"
    and "start_and_wait cl (scrape_params v ''links'') (world st) = (r, w1)"
    and "lambda_handler cl event st = (resp, st')"
  shows "(\<exists>rest. calls st' = calls st @ Scrape (scrape_params v ''links'') r # rest)
         \<and> resp \<noteq> missing_website
         \<and> statusCode resp \<noteq> 400
         \<and> ((\<exists>t. resp = success_response t) \<or> (\<exists>e. resp = error_response e))
         \<and> (\<forall>e. r = Inl e \<longrightarrow> resp = error_response e)
         \<and> (\<forall>res d l ls. r = Inr res \<and> data res = Some d \<and> links d = Some (l # ls) \<longrightarrow>
               resp = error_response
                 (TypeError (py ''startswith first arg must be str or a tuple of str, not ''
                    @ py (type_name v))))"
proof -
  let ?p = "scrape_params v ''links''"
  let ?st1 = "\<lparr>world = w1, calls = calls st @ [Scrape ?p r]\<rparr>"
  let ?K = "\<lambda>found. bind (lift (comprehension found v)) (\<lambda>links.
              bind (scrape_all cl links []) (\<lambda>all_content. prompt_chain cl all_content))"
  have web: "dict_get (VDict kvs) (py ''website'') VNone = Inr v"
    using assms(3) by simp
  have run: "(resp, st') = (case pipeline cl v st of
                (Inl e, s) \<Rightarrow> (error_response e, s) | (Inr x, s) \<Rightarrow> (x, s))"
    using handler_validated [OF assms(1,2) web assms(4), of st] assms(7) by simp
  have links: "scrape_links cl v st = (links_of r, ?st1)"
    using assms(6) by (simp add: scrape_links_apply)
  have pipe: "pipeline cl v st =
      (case links_of r of Inl e \<Rightarrow> (Inl e, ?st1) | Inr found \<Rightarrow> ?K found ?st1)"
    by (simp add: pipeline_def bind_def links split: sum.splits)
  have shape: "(\<exists>t. resp = success_response t) \<or> (\<exists>e. resp = error_response e)"
  proof (cases "fst (pipeline cl v st)")
    case (Inl e)
    with run show ?thesis by (auto split: prod.splits)
  next
    case (Inr x)
    then have "pipeline cl v st = (Inr x, snd (pipeline cl v st))"
      by (metis prod.collapse)
    from pipeline_Inr_shape [OF this] Inr run show ?thesis
      by (auto split: prod.splits)
  qed
  then have not400: "statusCode resp \<noteq> 400"
    by (auto simp: status_codes)
  then have notmissing: "resp \<noteq> missing_website"
    by (auto simp: status_codes)
  have log: "\<exists>rest. calls st' = calls st @ Scrape ?p r # rest"
  proof (cases "links_of r")
    case (Inl e)
    with pipe run have "st' = ?st1" by simp
    then show ?thesis by simp
  next
    case (Inr found)
    from orderly_after_links [of found v cl] obtain new where
      "calls (snd (?K found ?st1)) = calls ?st1 @ new"
      unfolding orderly_def by blast
    moreover from Inr pipe run have "st' = snd (?K found ?st1)"
      by (simp split: prod.splits sum.splits)
    ultimately show ?thesis by simp
  qed
  have raised: "\<forall>e. r = Inl e \<longrightarrow> resp = error_response e"
  proof (intro allI impI)
    fix e assume "r = Inl e"
    then have "links_of r = Inl e" by (simp add: links_of_def)
    with pipe run show "resp = error_response e" by simp
  qed
  have typed: "\<forall>res d l ls. r = Inr res \<and> data res = Some d \<and> links d = Some (l # ls) \<longrightarrow>
      resp = error_response
        (TypeError (py ''startswith first arg must be str or a tuple of str, not ''
           @ py (type_name v)))"
  proof (intro allI impI)
    fix res d l ls
    assume a: "r = Inr res \<and> data res = Some d \<and> links d = Some (l # ls)"
    then have lo: "links_of r = Inr (Some (l # ls))" by (simp add: links_of_def)
    have "comprehension (Some (l # ls)) v
        = Inl (TypeError (py ''startswith first arg must be str or a tuple of str, not ''
            @ py (type_name v)))"
      by (simp add: comprehension_def startswith_non_str [OF assms(5)])
    then have "?K (Some (l # ls)) ?st1
        = (Inl (TypeError (py ''startswith first arg must be str or a tuple of str, not ''
            @ py (type_name v))), ?st1)"
      by (simp add: bind_lift_Inl)
    with lo pipe run show "resp = error_response
        (TypeError (py ''startswith first arg must be str or a tuple of str, not ''
           @ py (type_name v)))"
      by simp
  qed
  from log notmissing not400 shape raised typed show ?thesis by blast
qed

lemma decode_number:
  "json_loads (Suc d) (VStr (py ''{'' @ [34] @ py ''website'' @ [34] @ py '': 5}''))
     = Inr (VDict [(py ''website'', VInt 5)])"
  by (simp add: json_eval)

lemma number_body:
  "dict_get number_request (py ''body'') (VStr (py ''{}''))
     = Inr (VStr (py ''{'' @ [34] @ py ''website'' @ [34] @ py '': 5}''))"
  by (simp add: number_request_def request_body)


theorem non_string_website_is_not_400_witness:
  "truthy (VInt 5)
   \<and> (\<forall>s. VInt 5 \<noteq> VStr s)
   \<and> fst (lambda_handler scripted number_request (start number_answers))
       = error_response
           (TypeError (py ''startswith first arg must be str or a tuple of str, not ''
              @ py ''int''))
   \<and> statusCode (fst (lambda_handler scripted number_request (start number_answers))) = 500
   \<and> fst (lambda_handler scripted number_request (start number_answers)) \<noteq> missing_website
   \<and> (\<exists>rest. calls (snd (lambda_handler scripted number_request (start number_answers)))
         = calls (start number_answers)
           @ Scrape (scrape_params (VInt 5) ''links'') (links_result [acme_about]) # rest)"
proof -
  let ?H = "lambda_handler scripted number_request (start number_answers)"
  have web: "map_of [(py ''website'', VInt 5)] (py ''website'') = Some (VInt 5)"
    by simp
  have tr: "truthy (VInt 5)" by simp
  have ns: "\<forall>s. VInt 5 \<noteq> VStr s" by simp
  have scr: "start_and_wait scripted (scrape_params (VInt 5) ''links'')
               (world (start number_answers))
             = (links_result [acme_about], ([], three_replies))"
    by (simp add: start_def number_answers_def scripted_scrape)
  have run: "?H = (fst ?H, snd ?H)" by simp
  note th = non_string_website_is_not_400 [OF number_body decode_number web tr ns scr run]
  from th have log: "\<exists>rest. calls (snd ?H) = calls (start number_answers)
           @ Scrape (scrape_params (VInt 5) ''links'') (links_result [acme_about]) # rest"
    by blast
  from th have nm: "fst ?H \<noteq> missing_website" by blast
  from th have "\<forall>res d l ls. links_result [acme_about] = Inr res \<and> data res = Some d
        \<and> links d = Some (l # ls) \<longrightarrow>
      fst ?H = error_response
        (TypeError (py ''startswith first arg must be str or a tuple of str, not ''
           @ py (type_name (VInt 5))))"
    by blast
  then have err: "fst ?H = error_response
        (TypeError (py ''startswith first arg must be str or a tuple of str, not ''
           @ py ''int''))"
    by (simp add: links_result_def)
  then have "statusCode (fst ?H) = 500" by (simp add: status_codes)
  with tr ns err nm log show ?thesis by blast
qed

end
